(* ===== verification/Prelude.thy ===== *)
theory Prelude
  imports Main
begin

text \<open>
  Shared vocabulary of the development: the part of the JavaScript runtime that
  \<^verbatim>\<open>src/src/App.tsx\<close> relies on, written out explicitly.
  \<^item> An exception thrown while running a handler or the reducer is the value
    \<open>Inl TypeError\<close> of a sum \<open>js_error + 'a\<close>; the only exception the code can
    raise is the \<^verbatim>\<open>TypeError\<close> of reading or writing a property of \<^verbatim>\<open>undefined\<close>.
  \<^item> Array indexing \<^verbatim>\<open>xs[i]\<close> with a JavaScript number is \<open>js_get\<close>: \<open>None\<close> is
    \<^verbatim>\<open>undefined\<close> (a negative, too large or \<^verbatim>\<open>null\<close> index).
  \<^item> A field typed \<^verbatim>\<open>number | null\<close> is an \<open>int option\<close>; \<open>js_num\<close> is its
    numeric coercion (\<^verbatim>\<open>null\<close> becomes 0), \<open>js_falsy\<close> the test \<^verbatim>\<open>!x\<close>.
  \<^item> The template literal \<^verbatim>\<open>`${n}`\<close> is \<open>js_num_string\<close>.
  The generic lemmas about these operations are collected in the theorem
  collection \<open>js_simps\<close>, which the component proofs pass to the simplifier.
\<close>

named_theorems js_simps "rewrite rules for the JavaScript runtime helpers"

datatype js_error = TypeError

type_synonym 'a js_result = "js_error + 'a"

definition js_get :: "'a list \<Rightarrow> int \<Rightarrow> 'a option" where
  "js_get xs i = (if 0 \<le> i \<and> i < int (length xs) then Some (xs ! nat i) else None)"

definition js_num :: "int option \<Rightarrow> int" where
  "js_num x = (case x of None \<Rightarrow> 0 | Some n \<Rightarrow> n)"

definition js_falsy :: "int option \<Rightarrow> bool" where
  "js_falsy x = (x = None \<or> x = Some 0)"

text \<open>Sequencing of two computations that may throw: the first exception wins.\<close>

definition js_bind :: "'a js_result \<Rightarrow> ('a \<Rightarrow> 'b js_result) \<Rightarrow> 'b js_result" where
  "js_bind r f = (case r of Inl e \<Rightarrow> Inl e | Inr x \<Rightarrow> f x)"

fun digits_string :: "nat \<Rightarrow> string" where
  "digits_string n =
     (if n < 10 then [char_of (48 + n)]
      else digits_string (n div 10) @ [char_of (48 + n mod 10)])"

definition js_num_string :: "int option \<Rightarrow> string" where
  "js_num_string x =
     (case x of
        None \<Rightarrow> ''null''
      | Some n \<Rightarrow> (if n < 0 then CHR ''-'' # digits_string (nat (- n)) else digits_string (nat n)))"

declare digits_string.simps [simp del]

subsection \<open>Lemmas on the runtime helpers\<close>

lemma js_get_Some_iff [js_simps]:
  "js_get xs i = Some x \<longleftrightarrow> 0 \<le> i \<and> i < int (length xs) \<and> x = xs ! nat i"
  by (auto simp: js_get_def split: if_splits)

lemma js_get_None_iff [js_simps]:
  "js_get xs i = None \<longleftrightarrow> i < 0 \<or> int (length xs) \<le> i"
  by (auto simp: js_get_def split: if_splits)

lemma js_get_nat [js_simps]:
  "i < length xs \<Longrightarrow> js_get xs (int i) = Some (xs ! i)"
  by (simp add: js_get_def)

lemma js_get_update_same [js_simps]:
  "js_get xs i = Some x \<Longrightarrow> js_get (xs[nat i := y]) i = Some y"
  by (auto simp: js_get_def split: if_splits)

lemma js_get_update_other [js_simps]:
  "j \<noteq> i \<Longrightarrow> 0 \<le> i \<Longrightarrow> js_get (xs[nat i := y]) j = js_get xs j"
  by (auto simp: js_get_def nth_list_update nat_eq_iff)

lemma js_get_append_len [js_simps]:
  "js_get (xs @ [x]) (int (length xs)) = Some x"
  by (simp add: js_get_def)

lemma js_num_Some [simp, js_simps]: "js_num (Some n) = n"
  by (simp add: js_num_def)

lemma js_num_None [simp, js_simps]: "js_num None = 0"
  by (simp add: js_num_def)

lemma js_falsy_Some [simp, js_simps]: "js_falsy (Some n) \<longleftrightarrow> n = 0"
  by (simp add: js_falsy_def)

lemma js_falsy_None [simp, js_simps]: "js_falsy None"
  by (simp add: js_falsy_def)

lemma js_bind_Inr [simp, js_simps]: "js_bind (Inr x) f = f x"
  by (simp add: js_bind_def)

lemma js_bind_Inl [simp, js_simps]: "js_bind (Inl e) f = Inl e"
  by (simp add: js_bind_def)

lemma js_bind_eq_Inr:
  "js_bind r f = Inr y \<longleftrightarrow> (\<exists>x. r = Inr x \<and> f x = Inr y)"
  by (cases r) auto

lemma list_all_update [intro]: "list_all P xs \<Longrightarrow> P x \<Longrightarrow> list_all P (xs[i := x])"
  by (induction xs arbitrary: i) (auto split: nat.splits)

lemma digits_string_small [simp]: "n < 10 \<Longrightarrow> digits_string n = [char_of (48 + n)]"
  by (simp add: digits_string.simps)

lemma digits_string_big: "\<not> n < 10 \<Longrightarrow>
    digits_string n = digits_string (n div 10) @ [char_of (48 + n mod 10)]"
  by (simp add: digits_string.simps)

end
