(* ===== verification/GameState.thy ===== *)
theory GameState
  imports Prelude
begin

text \<open>
  The data model of \<^verbatim>\<open>src/src/App.tsx\<close>, lines 7--57: the interfaces
  \<^verbatim>\<open>Frame\<close>, \<^verbatim>\<open>Player\<close> and \<^verbatim>\<open>Game\<close> as records, and the constants
  \<^verbatim>\<open>frameInitialState\<close>, \<^verbatim>\<open>framesInitialState\<close>, \<^verbatim>\<open>playerInitialState\<close>
  and \<^verbatim>\<open>gameInitialState\<close>.

  JavaScript numbers are modelled as \<open>int\<close>: every value the program computes is
  a small integer sum, far inside the range where doubles are exact.
  The state lives in an immer draft (\<^verbatim>\<open>useImmerReducer\<close>): immer copies on
  write along the path that is modified, so objects shared between several places
  of the initial state (the ten entries of \<^verbatim>\<open>Array(10).fill(...)\<close> are one object,
  and every player spreads the same \<^verbatim>\<open>frames\<close> array) never see each other's
  updates. The model therefore uses values: a record is copied, never aliased. For
  the same reason \<^verbatim>\<open>currentPlayer\<close> is a snapshot of the player it was set from,
  not a reference into \<^verbatim>\<open>players\<close>.
  \<^verbatim>\<open>currentPlayer\<close> is an option because the reducer can assign it the value
  \<^verbatim>\<open>undefined\<close> of an out-of-range read (\<open>None\<close>).
\<close>

record frame =
  rollNumber :: int
  total :: int
  firstRoll :: int
  secondRoll :: int
  currentPinsDown :: int
  strike :: bool
  spare :: bool

definition frameInitialState :: frame where
  "frameInitialState =
     \<lparr>rollNumber = 1, total = 0, firstRoll = 0, secondRoll = 0,
      currentPinsDown = 0, strike = False, spare = False\<rparr>"

definition framesInitialState :: "frame list" where
  "framesInitialState = replicate 10 frameInitialState"

record player =
  playerNumber :: "int option"
  score :: int
  frames :: "frame list"

definition playerInitialState :: player where
  "playerInitialState = \<lparr>playerNumber = None, score = 0, frames = framesInitialState\<rparr>"

record game =
  players :: "player list"
  currentPlayer :: "player option"
  currentFrameNumber :: int
  winner :: string

definition gameInitialState :: game where
  "gameInitialState =
     \<lparr>players = [],
      currentPlayer = Some \<lparr>playerNumber = None, score = 0, frames = []\<rparr>,
      currentFrameNumber = 1,
      winner = ''''\<rparr>"

text \<open>
  The one nested write the reducer performs: \<^verbatim>\<open>state.players[p].frames[f]\<close>
  is read (a \<^verbatim>\<open>TypeError\<close> when the player is \<^verbatim>\<open>undefined\<close>, since its
  \<^verbatim>\<open>frames\<close> is read; a \<^verbatim>\<open>TypeError\<close> when the frame is \<^verbatim>\<open>undefined\<close>,
  since a property of it is written) and updated in place by \<open>g\<close>.
\<close>

definition update_frame :: "int \<Rightarrow> int \<Rightarrow> (frame \<Rightarrow> frame) \<Rightarrow> game \<Rightarrow> game js_result" where
  "update_frame p f g s =
     (case js_get (players s) p of
        None \<Rightarrow> Inl TypeError
      | Some pl \<Rightarrow>
          (case js_get (frames pl) f of
             None \<Rightarrow> Inl TypeError
           | Some fr \<Rightarrow>
               Inr (s\<lparr>players := (players s)[nat p := pl\<lparr>frames := (frames pl)[nat f := g fr]\<rparr>]\<rparr>)))"

subsection \<open>Reading and writing one frame\<close>

text \<open>
  \<open>frame_of s p f\<close> is the frame \<^verbatim>\<open>state.players[p].frames[f]\<close> when both
  indices are in range; the lemmas below say what \<open>update_frame\<close> does to it and
  to every other field.
\<close>

definition frame_of :: "game \<Rightarrow> int \<Rightarrow> int \<Rightarrow> frame option" where
  "frame_of s p f = (case js_get (players s) p of None \<Rightarrow> None | Some pl \<Rightarrow> js_get (frames pl) f)"

definition set_frame :: "game \<Rightarrow> int \<Rightarrow> int \<Rightarrow> frame \<Rightarrow> game" where
  "set_frame s p f fr =
     s\<lparr>players := (players s)[nat p :=
        (players s ! nat p)\<lparr>frames := (frames (players s ! nat p))[nat f := fr]\<rparr>]\<rparr>"

lemma update_frame_Inr_iff:
  "update_frame p f g s = Inr s' \<longleftrightarrow> (\<exists>fr. frame_of s p f = Some fr \<and> s' = set_frame s p f (g fr))"
  by (auto simp: update_frame_def frame_of_def set_frame_def js_simps split: option.splits)

lemma update_frame_Inl_iff:
  "update_frame p f g s = Inl TypeError \<longleftrightarrow> frame_of s p f = None"
  by (auto simp: update_frame_def frame_of_def split: option.splits)

lemma update_frame_Some:
  "frame_of s p f = Some fr \<Longrightarrow> update_frame p f g s = Inr (set_frame s p f (g fr))"
  by (simp add: update_frame_Inr_iff)

lemma set_frame_fields [simp]:
  "currentPlayer (set_frame s p f fr) = currentPlayer s"
  "currentFrameNumber (set_frame s p f fr) = currentFrameNumber s"
  "winner (set_frame s p f fr) = winner s"
  "length (players (set_frame s p f fr)) = length (players s)"
  by (simp_all add: set_frame_def)

lemma frame_of_Some_iff:
  "frame_of s p f = Some fr \<longleftrightarrow>
     0 \<le> p \<and> p < int (length (players s)) \<and> 0 \<le> f \<and>
     f < int (length (frames (players s ! nat p))) \<and> fr = frames (players s ! nat p) ! nat f"
  by (auto simp: frame_of_def js_simps split: option.splits)

lemma frame_of_set_frame:
  assumes "frame_of s p f = Some fr"
  shows "frame_of (set_frame s p f fr') q h = (if q = p \<and> h = f then Some fr' else frame_of s q h)"
  using assms
  by (auto simp: frame_of_def set_frame_def js_get_def nth_list_update nat_eq_iff
      split: option.splits if_splits)

lemma players_set_frame_nth:
  assumes "frame_of s p f = Some fr" and "i < length (players s)"
  shows "players (set_frame s p f fr') ! i =
           (if i = nat p then (players s ! i)\<lparr>frames := (frames (players s ! i))[nat f := fr']\<rparr>
            else players s ! i)"
  using assms by (auto simp: set_frame_def frame_of_Some_iff)

lemma set_frame_twice:
  assumes "frame_of s p f = Some fr"
  shows "set_frame (set_frame s p f x) p f y = set_frame s p f y"
  using assms by (auto simp: set_frame_def frame_of_Some_iff)

lemma frame_of_fields [simp]:
  "frame_of (s\<lparr>currentFrameNumber := c\<rparr>) p f = frame_of s p f"
  "frame_of (s\<lparr>currentPlayer := cp\<rparr>) p f = frame_of s p f"
  "frame_of (s\<lparr>winner := w\<rparr>) p f = frame_of s p f"
  by (simp_all add: frame_of_def)

end
