(* ===== verification/Reducer.thy ===== *)
theory Reducer
  imports GameState
begin

text \<open>
  The reducer of \<^verbatim>\<open>src/src/App.tsx\<close>, lines 59--208.
  \<^verbatim>\<open>GameAction\<close> is a record of a type tag and optional fields; every dispatch
  site supplies a fixed set of fields for its tag, so the model is a datatype with one
  constructor per tag that carries exactly those fields: a player number
  (\<^verbatim>\<open>number | null\<close>, an \<open>int option\<close>), a pin count, a frame index.
  \<open>gameReducer\<close> is the \<^verbatim>\<open>switch\<close>: one branch per \<^verbatim>\<open>case\<close>, its early
  \<^verbatim>\<open>return\<close>s (which leave the draft unchanged) and the \<^verbatim>\<open>TypeError\<close>s of
  its reads of \<^verbatim>\<open>undefined\<close>. The tag \<^verbatim>\<open>"addToSpare"\<close> has no \<^verbatim>\<open>case\<close>:
  the second block is labelled \<^verbatim>\<open>"addToStrike"\<close> again, and a \<^verbatim>\<open>switch\<close>
  runs only the first matching label, so that block is dead and
  \<^verbatim>\<open>"addToSpare"\<close> leaves the state as it is.
  \<open>dispatch\<close> runs the reducer over the actions one event handler queued, in
  order, as React applies a queue of dispatched actions.
\<close>

datatype gameAction =
    AddPlayer
  | RecordStrike "int option" int
  | RecordSpare "int option" int
  | AddToScore "int option" int
  | CallWinner "int option"
  | NextFrame "int option"
  | NextPlayer "int option"
  | NextRoll "int option"
  | AddFirstPlayer
  | AddToStrike int int
  | AddToSpare int int

definition push_player :: "game \<Rightarrow> game" where
  "push_player s =
     s\<lparr>players := players s @ [playerInitialState\<lparr>playerNumber := Some (int (length (players s)) + 1)\<rparr>]\<rparr>"

fun gameReducer :: "game \<Rightarrow> gameAction \<Rightarrow> game js_result" where
  "gameReducer s AddPlayer = Inr (push_player s)"
| "gameReducer s (RecordStrike pn pinsDown) =
     update_frame (js_num pn - 1) (currentFrameNumber s)
       (\<lambda>fr. fr\<lparr>firstRoll := 10, total := 10, rollNumber := 2\<rparr>) s"
| "gameReducer s (RecordSpare pn pinsDown) =
     (if js_falsy pn then Inr s
      else update_frame (js_num pn - 1) (currentFrameNumber s)
             (\<lambda>fr. fr\<lparr>total := 10, rollNumber := 2\<rparr>) s)"
| "gameReducer s (AddToScore pn pinsDown) =
     (if js_falsy pn then Inr s
      else update_frame (js_num pn - 1) (currentFrameNumber s - 1)
             (\<lambda>fr. if rollNumber fr = 1 then fr\<lparr>firstRoll := pinsDown, total := pinsDown\<rparr>
                   else if rollNumber fr = 2
                   then fr\<lparr>secondRoll := firstRoll fr + pinsDown, total := firstRoll fr + pinsDown\<rparr>
                   else fr) s)"
| "gameReducer s (CallWinner pn) = Inr (s\<lparr>winner := ''Player '' @ js_num_string pn\<rparr>)"
| "gameReducer s (NextFrame pn) =
     (case js_get (players s) (js_num pn - 1) of
        None \<Rightarrow> Inl TypeError
      | Some currentPlayer' \<Rightarrow>
          js_bind
            (if 2 \<le> currentFrameNumber s
             then (case js_get (frames currentPlayer') (currentFrameNumber s - 2) of
                     None \<Rightarrow> Inl TypeError
                   | Some prev \<Rightarrow> Inr (total prev))
             else Inr 0)
            (\<lambda>previousFrameTotal.
               js_bind
                 (update_frame (js_num pn - 1) (currentFrameNumber s - 1)
                    (\<lambda>fr. fr\<lparr>total := previousFrameTotal + firstRoll fr + secondRoll fr\<rparr>) s)
                 (\<lambda>s'. Inr (s'\<lparr>currentFrameNumber := currentFrameNumber s' + 1\<rparr>))))"
| "gameReducer s (NextPlayer pn) =
     (if js_falsy pn then Inr s
      else if pn = Some (int (length (players s)) - 1)
      then Inr (s\<lparr>currentPlayer := js_get (players s) 0\<rparr>)
      else Inr (s\<lparr>currentPlayer := js_get (players s) (js_num pn)\<rparr>))"
| "gameReducer s (NextRoll pn) =
     update_frame (js_num pn - 1) (currentFrameNumber s - 1)
       (\<lambda>fr. fr\<lparr>rollNumber := rollNumber fr + 1\<rparr>) s"
| "gameReducer s AddFirstPlayer =
     (let s' = push_player s in Inr (s'\<lparr>currentPlayer := js_get (players s') 0\<rparr>))"
| "gameReducer s (AddToStrike strikeIndex pinsDown) =
     (case currentPlayer s of
        None \<Rightarrow> Inl TypeError
      | Some cp \<Rightarrow>
          (case playerNumber cp of
             None \<Rightarrow> Inl TypeError
           | Some n \<Rightarrow>
               update_frame n strikeIndex
                 (\<lambda>fr. let fr' = fr\<lparr>total := total fr + pinsDown\<rparr> in
                       if rollNumber fr' = 1 then fr'\<lparr>firstRoll := pinsDown\<rparr>
                       else if rollNumber fr' = 2 then fr'\<lparr>secondRoll := pinsDown\<rparr>
                       else fr') s))"
| "gameReducer s (AddToSpare spareIndex pinsDown) = Inr s"

fun dispatch :: "game \<Rightarrow> gameAction list \<Rightarrow> game js_result" where
  "dispatch s [] = Inr s"
| "dispatch s (a # as) = js_bind (gameReducer s a) (\<lambda>s'. dispatch s' as)"

end
