(* ===== verification/Handlers.thy ===== *)
theory Handlers
  imports Reducer
begin

text \<open>
  The body of the component \<^verbatim>\<open>App\<close> in \<^verbatim>\<open>src/src/App.tsx\<close>, lines 210--322:
  the helpers and the two click handlers.
  A handler reads the state \<^verbatim>\<open>game\<close> of the current render and queues actions with
  \<^verbatim>\<open>gameDispatch\<close>; every read in the handler sees that snapshot, not the effect
  of an action it queued before. So a handler is a function of the snapshot that
  computes a list of actions, and its effect is \<open>dispatch\<close> of that list on the
  snapshot. A \<^verbatim>\<open>TypeError\<close> thrown by the handler itself happens before any
  dispatch and is \<open>Inl TypeError\<close>.

  The random pin count \<^verbatim>\<open>roll(min, max)\<close> is a parameter of \<open>handleRoll\<close>:
  any function whose results satisfy \<open>roll_outcome\<close>, the set of values
  \<^verbatim>\<open>Math.floor(Math.random() * (max - min + 1) + min)\<close> can take for integer
  bounds and \<^verbatim>\<open>Math.random()\<close> in \<open>[0, 1)\<close>.
\<close>

definition getMinOfRange :: "int \<Rightarrow> int" where
  "getMinOfRange currentPins = 10 - currentPins"

text \<open>
  \<^verbatim>\<open>calculateWinner\<close> folds over the players with the pair
  (\<^verbatim>\<open>winnerScore\<close>, \<^verbatim>\<open>winner\<close>); the loop never assigns \<^verbatim>\<open>winnerScore\<close>.
\<close>

definition calculateWinner :: "game \<Rightarrow> int option" where
  "calculateWinner game =
     snd (foldl (\<lambda>(winnerScore, winner) player.
                   (winnerScore, if winnerScore < score player then playerNumber player else winner))
            (0, Some (-1)) (players game))"

definition roll_outcome :: "int \<Rightarrow> int \<Rightarrow> int \<Rightarrow> bool" where
  "roll_outcome lo hi r =
     (if lo \<le> hi then lo \<le> r \<and> r \<le> hi else hi + 1 \<le> r \<and> r \<le> lo)"

definition valid_roll :: "(int \<Rightarrow> int \<Rightarrow> int) \<Rightarrow> bool" where
  "valid_roll roll \<longleftrightarrow> (\<forall>lo hi. roll_outcome lo hi (roll lo hi))"

text \<open>
  The two look-ups of outstanding bonuses read \<^verbatim>\<open>game.currentPlayer.frames\<close>,
  the snapshot of the current player.
\<close>

definition getPreviousStrikes :: "game \<Rightarrow> int js_result" where
  "getPreviousStrikes game =
     (if currentFrameNumber game = 1 then Inr (-1)
      else case currentPlayer game of
        None \<Rightarrow> Inl TypeError
      | Some cp \<Rightarrow>
          (case js_get (frames cp) (currentFrameNumber game - 1) of
             None \<Rightarrow> Inl TypeError
           | Some f1 \<Rightarrow>
               if strike f1 then Inr (currentFrameNumber game - 1)
               else (case js_get (frames cp) (currentFrameNumber game - 2) of
                       None \<Rightarrow> Inl TypeError
                     | Some f2 \<Rightarrow>
                         if strike f2 \<and> 2 \<le> length (frames cp)
                         then Inr (currentFrameNumber game - 2) else Inr (-1))))"

definition getPreviousSpares :: "game \<Rightarrow> int js_result" where
  "getPreviousSpares game =
     (case currentPlayer game of
        None \<Rightarrow> Inl TypeError
      | Some cp \<Rightarrow>
          if length (frames cp) < 1 then Inr (-1)
          else (case js_get (frames cp) (currentFrameNumber game - 1) of
                  None \<Rightarrow> Inl TypeError
                | Some f \<Rightarrow> if spare f then Inr (currentFrameNumber game - 1) else Inr (-1)))"

text \<open>The lower bound \<^verbatim>\<open>min\<close> handed to \<^verbatim>\<open>roll\<close> (lines 269--271).\<close>

definition roll_min :: "frame \<Rightarrow> int" where
  "roll_min currentFrame = (if 0 < total currentFrame then getMinOfRange (total currentFrame) else 0)"

definition handleAddPlayer :: "game \<Rightarrow> game js_result" where
  "handleAddPlayer game =
     (if players game = [] then dispatch game [AddFirstPlayer] else dispatch game [AddPlayer])"

text \<open>
  The actions \<^verbatim>\<open>handleRoll\<close> queues: first the one that records the pins
  (lines 275--296), then the one that moves the turn (lines 298--321).
\<close>

definition record_action ::
  "int option \<Rightarrow> frame \<Rightarrow> int \<Rightarrow> int \<Rightarrow> int \<Rightarrow> gameAction" where
  "record_action pn currentFrame strikeIndex spareIndex pinsDown =
     (if pinsDown = 10 \<and> rollNumber currentFrame = 1 then RecordStrike pn pinsDown
      else if pinsDown = 10 \<and> rollNumber currentFrame = 2 then RecordSpare pn pinsDown
      else if strikeIndex \<noteq> -1 then AddToStrike strikeIndex pinsDown
      else if spareIndex \<noteq> -1 then AddToSpare spareIndex pinsDown
      else AddToScore pn pinsDown)"

definition turn_action :: "game \<Rightarrow> int option \<Rightarrow> frame \<Rightarrow> gameAction" where
  "turn_action game pn currentFrame =
     (let isLastPlayer = (pn = Some (int (length (players game)))) in
      if rollNumber currentFrame = 2 \<and> isLastPlayer \<and> currentFrameNumber game = 10
      then CallWinner (calculateWinner game)
      else if rollNumber currentFrame = 2 \<and> isLastPlayer then NextFrame pn
      else if rollNumber currentFrame = 2 then NextPlayer pn
      else NextRoll pn)"

definition handleRoll :: "(int \<Rightarrow> int \<Rightarrow> int) \<Rightarrow> game \<Rightarrow> game js_result" where
  "handleRoll roll game =
     (if 9 < currentFrameNumber game then Inr game
      else case currentPlayer game of
        None \<Rightarrow> Inl TypeError
      | Some cp \<Rightarrow>
          (case js_get (players game) (js_num (playerNumber cp) - 1) of
             None \<Rightarrow> Inl TypeError
           | Some p \<Rightarrow>
               (case js_get (frames p) (currentFrameNumber game - 1) of
                  None \<Rightarrow> Inl TypeError
                | Some currentFrame \<Rightarrow>
                    if 2 < rollNumber currentFrame then Inr game
                    else
                      js_bind (getPreviousStrikes game) (\<lambda>strikeIndex.
                      js_bind (getPreviousSpares game) (\<lambda>spareIndex.
                        let pinsDown = roll (roll_min currentFrame) 10
                        in dispatch game
                             [record_action (playerNumber cp) currentFrame strikeIndex spareIndex pinsDown,
                              turn_action game (playerNumber cp) currentFrame])))))"

end
