(* ===== verification/Machine.thy ===== *)
theory Machine
  imports Handlers
begin

text \<open>
  The application as a state machine over \<open>game\<close>: a step is one click on
  \<^verbatim>\<open>Add player\<close> (\<open>handleAddPlayer\<close>) or on \<^verbatim>\<open>Roll\<close> (\<open>handleRoll\<close> with any
  random source allowed by \<open>valid_roll\<close>) that does not throw. A click that
  throws leaves the state as it was, so it adds no reachable state.
  \<open>game_inv\<close> is the well-formedness invariant of the reachable states: players
  are numbered 1, 2, ... in order, each has ten frames, every frame is in its first or
  second roll and is never flagged strike or spare, the frame cursor is in 1..10, no
  winner is set, and the current player is a snapshot of a well-formed player whose
  number is in range and which is the last player only in a one-player game.
\<close>

inductive app_step :: "game \<Rightarrow> game \<Rightarrow> bool" where
  add_player: "handleAddPlayer s = Inr s' \<Longrightarrow> app_step s s'"
| roll: "valid_roll roll \<Longrightarrow> handleRoll roll s = Inr s' \<Longrightarrow> app_step s s'"

inductive reachable :: "game \<Rightarrow> bool" where
  init: "reachable gameInitialState"
| step: "reachable s \<Longrightarrow> app_step s s' \<Longrightarrow> reachable s'"

inductive_cases app_stepE: "app_step s s'"

text \<open>A random source that always yields \<open>k\<close>, clamped into the range \<^verbatim>\<open>roll\<close> can return.\<close>

definition pick :: "int \<Rightarrow> int \<Rightarrow> int \<Rightarrow> int" where
  "pick k lo hi = (if lo \<le> hi then max lo (min k hi) else lo)"

lemma valid_pick [simp]: "valid_roll (pick k)"
  by (simp add: valid_roll_def roll_outcome_def pick_def)

definition frame_ok :: "frame \<Rightarrow> bool" where
  "frame_ok fr \<longleftrightarrow> (rollNumber fr = 1 \<or> rollNumber fr = 2) \<and> \<not> strike fr \<and> \<not> spare fr"

definition player_ok :: "player \<Rightarrow> bool" where
  "player_ok p \<longleftrightarrow> length (frames p) = 10 \<and> list_all frame_ok (frames p) \<and> score p = 0"

definition numbered :: "player list \<Rightarrow> bool" where
  "numbered ps \<longleftrightarrow> (\<forall>i < length ps. playerNumber (ps ! i) = Some (int i + 1))"

definition turn_ok :: "player list \<Rightarrow> player option \<Rightarrow> bool" where
  "turn_ok ps c =
     (case c of
        None \<Rightarrow> False
      | Some cp \<Rightarrow>
          (if ps = [] then cp = \<lparr>playerNumber = None, score = 0, frames = []\<rparr>
           else player_ok cp \<and>
             (case playerNumber cp of
                None \<Rightarrow> False
              | Some k \<Rightarrow> 1 \<le> k \<and> (k < int (length ps) \<or> (k = 1 \<and> length ps = 1)))))"

definition game_inv :: "game \<Rightarrow> bool" where
  "game_inv g \<longleftrightarrow>
     numbered (players g) \<and> list_all player_ok (players g) \<and>
     1 \<le> currentFrameNumber g \<and> currentFrameNumber g \<le> 10 \<and> winner g = '''' \<and>
     turn_ok (players g) (currentPlayer g)"

lemmas inv_defs = game_inv_def numbered_def turn_ok_def

subsection \<open>The start state and adding players\<close>

lemma game_inv_init: "game_inv gameInitialState"
  by (simp add: inv_defs gameInitialState_def)

lemma player_ok_initial [simp]: "player_ok (playerInitialState\<lparr>playerNumber := n\<rparr>)"
  by (simp add: player_ok_def playerInitialState_def framesInitialState_def frameInitialState_def
      frame_ok_def list_all_iff)

lemma playerNumber_initial [simp]: "playerNumber (playerInitialState\<lparr>playerNumber := n\<rparr>) = n"
  by simp

lemma numbered_push:
  "numbered ps \<Longrightarrow> numbered (ps @ [playerInitialState\<lparr>playerNumber := Some (int (length ps) + 1)\<rparr>])"
  by (auto simp: numbered_def nth_append)

lemma handleAddPlayer_eq:
  assumes "handleAddPlayer s = Inr s'"
  shows "players s' = players s @ [playerInitialState\<lparr>playerNumber := Some (int (length (players s)) + 1)\<rparr>]"
    and "currentFrameNumber s' = currentFrameNumber s"
    and "players s \<noteq> [] \<Longrightarrow> currentPlayer s' = currentPlayer s"
  using assms by (auto simp: handleAddPlayer_def push_player_def split: if_splits)

lemma handleAddPlayer_inv:
  assumes "game_inv s" and "handleAddPlayer s = Inr s'"
  shows "game_inv s'"
proof (cases "players s = []")
  case True
  with assms show ?thesis
    by (auto simp: handleAddPlayer_def push_player_def inv_defs js_get_def)
next
  case False
  from assms(1) obtain cp k where cp: "currentPlayer s = Some cp" "playerNumber cp = Some k"
    "1 \<le> k" "k \<le> int (length (players s))"
    using False by (auto simp: inv_defs split: option.splits)
  from assms(2) False have s': "s' = push_player s"
    by (simp add: handleAddPlayer_def)
  from assms(1) have "numbered (players s')"
    by (simp add: s' push_player_def game_inv_def numbered_push)
  with assms(1) cp False show ?thesis
    by (auto simp: s' push_player_def game_inv_def turn_ok_def)
qed

subsection \<open>Rolling under the invariant\<close>

lemma turn_ok_length:
  assumes "length ps = length qs"
  shows "turn_ok ps c = turn_ok qs c"
proof -
  from assms have e: "ps = [] \<longleftrightarrow> qs = []"
    by auto
  show ?thesis
    unfolding turn_ok_def by (simp only: e assms)
qed

lemma game_inv_set_frame:
  assumes inv: "game_inv s" and fr: "frame_of s p f = Some fr" and ok: "frame_ok fr'"
  shows "game_inv (set_frame s p f fr')"
proof -
  let ?pl = "players s ! nat p"
  let ?pl' = "?pl\<lparr>frames := (frames ?pl)[nat f := fr']\<rparr>"
  from fr have p: "nat p < length (players s)"
    by (auto simp: frame_of_Some_iff)
  have players': "players (set_frame s p f fr') = (players s)[nat p := ?pl']"
    by (simp add: set_frame_def)
  from inv p have "player_ok ?pl"
    by (simp add: game_inv_def list_all_length)
  with ok have "player_ok ?pl'"
    by (auto simp: player_ok_def)
  with inv have "list_all player_ok (players (set_frame s p f fr'))"
    by (auto simp: players' game_inv_def)
  moreover from inv p have "numbered (players (set_frame s p f fr'))"
    by (auto simp: players' game_inv_def numbered_def nth_list_update)
  moreover have "turn_ok (players (set_frame s p f fr')) (currentPlayer s) =
      turn_ok (players s) (currentPlayer s)"
    by (rule turn_ok_length) simp
  ultimately show ?thesis
    using inv by (simp add: game_inv_def)
qed

lemma inv_current:
  assumes "game_inv g" and "players g \<noteq> []"
  obtains cp k where "currentPlayer g = Some cp" "playerNumber cp = Some k" "player_ok cp"
    "1 \<le> k" "k < int (length (players g)) \<or> (k = 1 \<and> length (players g) = 1)"
  using assms by (auto simp: game_inv_def turn_ok_def split: option.splits)

lemma inv_frame_of:
  assumes "game_inv g" and "1 \<le> k" and "k \<le> int (length (players g))" and "0 \<le> f" and "f < 10"
  shows "\<exists>fr. frame_of g (k - 1) f = Some fr \<and> frame_ok fr"
proof -
  let ?p = "players g ! nat (k - 1)"
  from assms have in_range: "nat (k - 1) < length (players g)"
    by linarith
  with assms(1) have "player_ok ?p"
    by (simp add: game_inv_def list_all_length)
  with assms(4,5) have "frame_ok (frames ?p ! nat f)" "f < int (length (frames ?p))"
    by (auto simp: player_ok_def list_all_length)
  with assms(2,3,4) show ?thesis
    by (auto simp: frame_of_Some_iff)
qed

lemma player_ok_frame:
  assumes "player_ok cp" and "0 \<le> f" and "f < 10"
  shows "js_get (frames cp) f = Some (frames cp ! nat f)" and "frame_ok (frames cp ! nat f)"
  using assms by (auto simp: player_ok_def list_all_length js_get_def)

lemma getPreviousStrikes_inv:
  assumes "game_inv g" and "currentPlayer g = Some cp" and "player_ok cp"
  shows "getPreviousStrikes g = Inr (-1)"
proof (cases "currentFrameNumber g = 1")
  case True
  then show ?thesis by (simp add: getPreviousStrikes_def)
next
  case False
  let ?c = "currentFrameNumber g"
  from assms(1) False have c: "2 \<le> ?c" "?c \<le> 10"
    by (auto simp: game_inv_def)
  with assms(3) have "js_get (frames cp) (?c - 1) = Some (frames cp ! nat (?c - 1))"
    "frame_ok (frames cp ! nat (?c - 1))"
    "js_get (frames cp) (?c - 2) = Some (frames cp ! nat (?c - 2))"
    "frame_ok (frames cp ! nat (?c - 2))"
    by (auto intro!: player_ok_frame)
  with False assms(2) show ?thesis
    by (simp add: getPreviousStrikes_def frame_ok_def)
qed

lemma getPreviousSpares_inv:
  assumes "game_inv g" and "currentPlayer g = Some cp" and "player_ok cp"
  shows "getPreviousSpares g = Inr (-1)"
proof -
  let ?c = "currentFrameNumber g"
  from assms(1) have c: "1 \<le> ?c" "?c \<le> 10"
    by (auto simp: game_inv_def)
  with assms(3) have "js_get (frames cp) (?c - 1) = Some (frames cp ! nat (?c - 1))"
    "frame_ok (frames cp ! nat (?c - 1))" "length (frames cp) = 10"
    by (auto intro!: player_ok_frame simp: player_ok_def)
  with assms(2) show ?thesis
    by (simp add: getPreviousSpares_def frame_ok_def)
qed

lemma handleRoll_unfold:
  assumes inv: "game_inv g" and cp: "currentPlayer g = Some cp" "playerNumber cp = Some k" "player_ok cp"
    and cf: "currentFrameNumber g \<le> 9"
    and fr: "frame_of g (k - 1) (currentFrameNumber g - 1) = Some fr" "frame_ok fr"
  shows "handleRoll roll g =
           dispatch g [record_action (Some k) fr (-1) (-1) (roll (roll_min fr) 10),
                       turn_action g (Some k) fr]"
proof -
  from fr(1) obtain p where "js_get (players g) (k - 1) = Some p" "js_get (frames p) (currentFrameNumber g - 1) = Some fr"
    by (auto simp: frame_of_def split: option.splits)
  moreover from fr(2) have "\<not> 2 < rollNumber fr"
    by (auto simp: frame_ok_def)
  ultimately show ?thesis
    using cf cp getPreviousStrikes_inv [OF inv cp(1,3)] getPreviousSpares_inv [OF inv cp(1,3)]
    by (simp add: handleRoll_def)
qed

text \<open>
  The pins are recorded (\<open>record_action\<close>) without touching the turn: the frame
  cursor, the current player, the number of players and the roll number of the current
  frame stay as they were.
\<close>

lemma record_action_step:
  assumes inv: "game_inv g" and k: "1 \<le> k" "k \<le> int (length (players g))"
    and cf: "currentFrameNumber g \<le> 9"
    and fr: "frame_of g (k - 1) (currentFrameNumber g - 1) = Some fr" "frame_ok fr"
  shows "\<exists>g1 fr1. gameReducer g (record_action (Some k) fr (-1) (-1) x) = Inr g1 \<and> game_inv g1 \<and>
           currentPlayer g1 = currentPlayer g \<and> currentFrameNumber g1 = currentFrameNumber g \<and>
           length (players g1) = length (players g) \<and>
           frame_of g1 (k - 1) (currentFrameNumber g - 1) = Some fr1 \<and> rollNumber fr1 = rollNumber fr \<and>
           (\<forall>i < length (players g). i \<noteq> nat (k - 1) \<longrightarrow> players g1 ! i = players g ! i)"
proof -
  let ?c = "currentFrameNumber g"
  from inv have c: "1 \<le> ?c"
    by (simp add: game_inv_def)
  from inv k c cf obtain nx where nx: "frame_of g (k - 1) ?c = Some nx" "frame_ok nx"
    using inv_frame_of [of g k ?c] by auto
  show ?thesis
  proof (cases "x = 10")
    case True
    let ?nx' = "if rollNumber fr = 1 then nx\<lparr>firstRoll := 10, total := 10, rollNumber := 2\<rparr>
                else nx\<lparr>total := 10, rollNumber := 2\<rparr>"
    from True fr(2) k have "gameReducer g (record_action (Some k) fr (-1) (-1) x) =
        Inr (set_frame g (k - 1) ?c ?nx')"
      by (auto simp: record_action_def frame_ok_def update_frame_Some [OF nx(1)])
    moreover from nx(2) have "frame_ok ?nx'"
      by (simp add: frame_ok_def)
    moreover have "frame_of (set_frame g (k - 1) ?c ?nx') (k - 1) (?c - 1) = Some fr"
      using fr(1) by (simp add: frame_of_set_frame [OF nx(1)])
    ultimately show ?thesis
      using game_inv_set_frame [OF inv nx(1)] players_set_frame_nth [OF nx(1)] by auto
  next
    case False
    let ?fr' = "if rollNumber fr = 1 then fr\<lparr>firstRoll := x, total := x\<rparr>
                else if rollNumber fr = 2 then fr\<lparr>secondRoll := firstRoll fr + x, total := firstRoll fr + x\<rparr>
                else fr"
    from False k have "gameReducer g (record_action (Some k) fr (-1) (-1) x) =
        Inr (set_frame g (k - 1) (?c - 1) ?fr')"
      by (simp add: record_action_def update_frame_Some [OF fr(1)])
    moreover from fr(2) have "frame_ok ?fr'"
      by (auto simp: frame_ok_def)
    moreover have "frame_of (set_frame g (k - 1) (?c - 1) ?fr') (k - 1) (?c - 1) = Some ?fr'"
      by (simp add: frame_of_set_frame [OF fr(1)])
    ultimately show ?thesis
      using game_inv_set_frame [OF inv fr(1)] players_set_frame_nth [OF fr(1)] by auto
  qed
qed

lemma inv_frame_ok:
  assumes "game_inv g" and "frame_of g p f = Some fr"
  shows "frame_ok fr"
proof -
  from assms(2) have p: "nat p < length (players g)" and f: "nat f < length (frames (players g ! nat p))"
    and fr: "fr = frames (players g ! nat p) ! nat f"
    by (auto simp: frame_of_Some_iff)
  from assms(1) p have "player_ok (players g ! nat p)"
    by (simp add: game_inv_def list_all_length)
  with f fr show ?thesis
    by (simp add: player_ok_def list_all_length)
qed

lemma game_inv_frame_cursor:
  "game_inv g \<Longrightarrow> 1 \<le> c \<Longrightarrow> c \<le> 10 \<Longrightarrow> game_inv (g\<lparr>currentFrameNumber := c\<rparr>)"
  by (simp add: game_inv_def)

lemma nextRoll_step:
  assumes inv: "game_inv g1" and fr: "frame_of g1 (k - 1) (currentFrameNumber g1 - 1) = Some fr"
    and rn: "rollNumber fr = 1"
  shows "\<exists>g2 fr2. gameReducer g1 (NextRoll (Some k)) = Inr g2 \<and> game_inv g2 \<and>
           length (players g2) = length (players g1) \<and> currentFrameNumber g2 = currentFrameNumber g1 \<and>
           currentPlayer g2 = currentPlayer g1 \<and>
           frame_of g2 (k - 1) (currentFrameNumber g1 - 1) = Some fr2 \<and> rollNumber fr2 = 2 \<and>
           (\<forall>i < length (players g1). i \<noteq> nat (k - 1) \<longrightarrow> players g2 ! i = players g1 ! i)"
proof -
  let ?fr' = "fr\<lparr>rollNumber := rollNumber fr + 1\<rparr>"
  from inv_frame_ok [OF inv fr] rn have "frame_ok ?fr'"
    by (simp add: frame_ok_def)
  with game_inv_set_frame [OF inv fr] rn show ?thesis
    by (simp add: update_frame_Some [OF fr] frame_of_set_frame [OF fr] players_set_frame_nth [OF fr])
qed

lemma nextFrame_step:
  assumes inv: "game_inv g1" and k: "1 \<le> k" "k \<le> int (length (players g1))"
    and c: "currentFrameNumber g1 \<le> 9"
  shows "\<exists>g2. gameReducer g1 (NextFrame (Some k)) = Inr g2 \<and> game_inv g2 \<and>
           length (players g2) = length (players g1) \<and>
           currentFrameNumber g2 = currentFrameNumber g1 + 1 \<and> currentPlayer g2 = currentPlayer g1 \<and>
           (\<forall>i < length (players g1). i \<noteq> nat (k - 1) \<longrightarrow> players g2 ! i = players g1 ! i)"
proof -
  let ?c = "currentFrameNumber g1"
  let ?p = "players g1 ! nat (k - 1)"
  from inv have c1: "1 \<le> ?c"
    by (simp add: game_inv_def)
  from inv_frame_of [OF inv k, of "?c - 1"] c c1 obtain fr
    where fr: "frame_of g1 (k - 1) (?c - 1) = Some fr" "frame_ok fr"
    by auto
  from k have p: "js_get (players g1) (k - 1) = Some ?p"
    by (simp add: js_get_def)
  obtain pt where pt: "(if 2 \<le> ?c then (case js_get (frames ?p) (?c - 2) of
                            None \<Rightarrow> Inl TypeError | Some prev \<Rightarrow> Inr (total prev))
                       else Inr 0) = Inr pt"
  proof (cases "2 \<le> ?c")
    case True
    with inv_frame_of [OF inv k, of "?c - 2"] c obtain fr0 where "frame_of g1 (k - 1) (?c - 2) = Some fr0"
      by auto
    with p True show ?thesis
      using that by (simp add: frame_of_def)
  next
    case False
    then show ?thesis using that by simp
  qed
  let ?g2 = "(set_frame g1 (k - 1) (?c - 1) (fr\<lparr>total := pt + firstRoll fr + secondRoll fr\<rparr>))
               \<lparr>currentFrameNumber := ?c + 1\<rparr>"
  from p pt have "gameReducer g1 (NextFrame (Some k)) = Inr ?g2"
    by (simp add: update_frame_Some [OF fr(1)])
  moreover have "game_inv ?g2"
    using game_inv_set_frame [OF inv fr(1), of "fr\<lparr>total := pt + firstRoll fr + secondRoll fr\<rparr>"] fr(2) c c1
    by (intro game_inv_frame_cursor) (simp_all add: frame_ok_def)
  ultimately show ?thesis
    by (simp add: players_set_frame_nth [OF fr(1)])
qed

lemma nextPlayer_step:
  assumes inv: "game_inv g1" and k: "1 \<le> k" "k < int (length (players g1))"
  shows "\<exists>g2. gameReducer g1 (NextPlayer (Some k)) = Inr g2 \<and> game_inv g2 \<and>
           players g2 = players g1 \<and> currentFrameNumber g2 = currentFrameNumber g1"
proof -
  let ?ps = "players g1"
  let ?j = "if k = int (length ?ps) - 1 then 0 else k"
  from k have j: "0 \<le> ?j" "?j < int (length ?ps)"
    by auto
  then have nth: "nat ?j < length ?ps"
    by linarith
  with inv j(1) have ok: "player_ok (?ps ! nat ?j)" "playerNumber (?ps ! nat ?j) = Some (?j + 1)"
    by (auto simp: game_inv_def numbered_def list_all_length)
  from k have "gameReducer g1 (NextPlayer (Some k)) = Inr (g1\<lparr>currentPlayer := Some (?ps ! nat ?j)\<rparr>)"
    by (auto simp: js_get_def)
  moreover from k ok j have "turn_ok ?ps (Some (?ps ! nat ?j))"
    by (auto simp: turn_ok_def)
  ultimately show ?thesis
    using inv by (simp add: game_inv_def)
qed

text \<open>
  One click on \<^verbatim>\<open>Roll\<close> from a well-formed state with a player, before the
  cursor reaches frame 10: it does not throw, keeps the invariant, advances the frame
  cursor exactly when the last player rolls the second ball of a frame, and otherwise
  either moves the current frame to its second roll or passes the turn.
\<close>

lemma handleRoll_step:
  assumes inv: "game_inv g" and cp: "currentPlayer g = Some cp" "playerNumber cp = Some k" "player_ok cp"
    and k: "1 \<le> k" "k < int (length (players g)) \<or> (k = 1 \<and> length (players g) = 1)"
    and cf: "currentFrameNumber g \<le> 9"
    and fr: "frame_of g (k - 1) (currentFrameNumber g - 1) = Some fr" "frame_ok fr"
  shows "\<exists>g'. handleRoll roll g = Inr g' \<and> game_inv g' \<and> length (players g') = length (players g) \<and>
     currentFrameNumber g' =
       (if rollNumber fr = 2 \<and> k = int (length (players g)) then currentFrameNumber g + 1
        else currentFrameNumber g) \<and>
     (rollNumber fr = 1 \<longrightarrow> currentPlayer g' = currentPlayer g \<and>
        (\<exists>fr2. frame_of g' (k - 1) (currentFrameNumber g - 1) = Some fr2 \<and> rollNumber fr2 = 2)) \<and>
     (k = int (length (players g)) \<longrightarrow> currentPlayer g' = currentPlayer g) \<and>
     (\<forall>i < length (players g). i \<noteq> nat (k - 1) \<longrightarrow> players g' ! i = players g ! i)"
proof -
  let ?x = "roll (roll_min fr) 10"
  let ?n = "int (length (players g))"
  from k have kn: "k \<le> ?n"
    by auto
  from record_action_step [OF inv k(1) kn cf fr, of ?x] obtain g1 fr1 where
    g1: "gameReducer g (record_action (Some k) fr (-1) (-1) ?x) = Inr g1" "game_inv g1"
      "currentPlayer g1 = currentPlayer g" "currentFrameNumber g1 = currentFrameNumber g"
      "length (players g1) = length (players g)"
      "frame_of g1 (k - 1) (currentFrameNumber g - 1) = Some fr1" "rollNumber fr1 = rollNumber fr"
      "\<forall>i < length (players g). i \<noteq> nat (k - 1) \<longrightarrow> players g1 ! i = players g ! i"
    by blast
  have run: "handleRoll roll g = js_bind (gameReducer g1 (turn_action g (Some k) fr)) Inr"
    by (simp add: handleRoll_unfold [OF inv cp cf fr] g1(1))
  from fr(2) consider (first) "rollNumber fr = 1" | (last) "rollNumber fr = 2" "k = ?n"
    | (pass) "rollNumber fr = 2" "k \<noteq> ?n"
    by (auto simp: frame_ok_def)
  then show ?thesis
  proof cases
    case first
    then have "turn_action g (Some k) fr = NextRoll (Some k)"
      by (simp add: turn_action_def)
    with nextRoll_step [OF g1(2), of k fr1] g1 first run show ?thesis
      by auto
  next
    case last
    with cf have "turn_action g (Some k) fr = NextFrame (Some k)"
      by (simp add: turn_action_def)
    with nextFrame_step [OF g1(2), of k] g1 last run k(1) cf show ?thesis
      by auto
  next
    case pass
    with cf have "turn_action g (Some k) fr = NextPlayer (Some k)"
      by (simp add: turn_action_def)
    moreover from pass k have "k < int (length (players g1))"
      using g1(5) by auto
    ultimately show ?thesis
      using nextPlayer_step [OF g1(2) k(1)] g1 pass run by auto
  qed
qed

lemma inv_roll_ready:
  assumes inv: "game_inv g" and ne: "players g \<noteq> []" and cf: "currentFrameNumber g \<le> 9"
  obtains cp k fr where "currentPlayer g = Some cp" "playerNumber cp = Some k" "player_ok cp"
    "1 \<le> k" "k < int (length (players g)) \<or> (k = 1 \<and> length (players g) = 1)"
    "frame_of g (k - 1) (currentFrameNumber g - 1) = Some fr" "frame_ok fr"
proof -
  from inv ne obtain cp k where cp: "currentPlayer g = Some cp" "playerNumber cp = Some k" "player_ok cp"
    "1 \<le> k" "k < int (length (players g)) \<or> (k = 1 \<and> length (players g) = 1)"
    by (rule inv_current)
  moreover from inv have "1 \<le> currentFrameNumber g"
    by (simp add: game_inv_def)
  ultimately obtain fr where "frame_of g (k - 1) (currentFrameNumber g - 1) = Some fr" "frame_ok fr"
    using inv_frame_of [OF inv, of k "currentFrameNumber g - 1"] cf by auto
  with cp show ?thesis
    using that by blast
qed

subsection \<open>The invariant holds in every reachable state\<close>

lemma handleRoll_late [simp]: "9 < currentFrameNumber g \<Longrightarrow> handleRoll roll g = Inr g"
  by (simp add: handleRoll_def)

lemma handleRoll_empty: "players g = [] \<Longrightarrow> currentFrameNumber g \<le> 9 \<Longrightarrow> handleRoll roll g = Inl TypeError"
  by (auto simp: handleRoll_def js_get_def split: option.splits)

lemma handleRoll_inv_length:
  assumes inv: "game_inv g" and run: "handleRoll roll g = Inr g'"
  shows "game_inv g' \<and> length (players g') = length (players g)"
proof (cases "9 < currentFrameNumber g")
  case True
  with inv run show ?thesis by simp
next
  case False
  with run handleRoll_empty [of g roll] have "players g \<noteq> []"
    by auto
  with inv False obtain cp k fr where
    r: "currentPlayer g = Some cp" "playerNumber cp = Some k" "player_ok cp"
       "1 \<le> k" "k < int (length (players g)) \<or> (k = 1 \<and> length (players g) = 1)"
       "frame_of g (k - 1) (currentFrameNumber g - 1) = Some fr" "frame_ok fr"
    by (elim inv_roll_ready) auto
  from handleRoll_step [OF inv r(1-3) r(4,5) _ r(6,7), of roll] False run show ?thesis
    by auto
qed

lemma roll_exists:
  assumes inv: "game_inv g" and ne: "players g \<noteq> []"
  shows "\<exists>g'. handleRoll roll g = Inr g'"
proof (cases "9 < currentFrameNumber g")
  case True
  then show ?thesis by simp
next
  case False
  with inv ne obtain cp k fr where
    r: "currentPlayer g = Some cp" "playerNumber cp = Some k" "player_ok cp"
       "1 \<le> k" "k < int (length (players g)) \<or> (k = 1 \<and> length (players g) = 1)"
       "frame_of g (k - 1) (currentFrameNumber g - 1) = Some fr" "frame_ok fr"
    by (elim inv_roll_ready) auto
  from handleRoll_step [OF inv r(1-3) r(4,5) _ r(6,7), of roll] False show ?thesis
    by auto
qed

lemma handleRoll_inv: "game_inv g \<Longrightarrow> handleRoll roll g = Inr g' \<Longrightarrow> game_inv g'"
  by (simp add: handleRoll_inv_length)

lemma app_step_inv: "app_step s s' \<Longrightarrow> game_inv s \<Longrightarrow> game_inv s'"
  by (auto elim!: app_stepE intro: handleAddPlayer_inv handleRoll_inv)

lemma reachable_inv: "reachable g \<Longrightarrow> game_inv g"
  by (induction rule: reachable.induct) (auto intro: game_inv_init app_step_inv)

subsection \<open>Runs of clicks on Roll\<close>

text \<open>
  \<open>play rs g\<close> clicks \<^verbatim>\<open>Roll\<close> once per random source in \<open>rs\<close>, stopping at the
  first click that throws.
\<close>

fun play :: "(int \<Rightarrow> int \<Rightarrow> int) list \<Rightarrow> game \<Rightarrow> game js_result" where
  "play [] g = Inr g"
| "play (r # rs) g = js_bind (handleRoll r g) (play rs)"

text \<open>
  The rolls a single player has left before the frame cursor reaches 10: two per frame
  still to finish, one less when the current frame is in its second roll.
\<close>

definition rolls_left :: "game \<Rightarrow> nat" where
  "rolls_left g =
     (case frame_of g 0 (currentFrameNumber g - 1) of
        None \<Rightarrow> 0
      | Some fr \<Rightarrow> nat (2 * (10 - currentFrameNumber g)) - (if rollNumber fr = 2 then 1 else 0))"

lemma rolls_left_le: "game_inv g \<Longrightarrow> rolls_left g \<le> 18"
  by (auto simp: rolls_left_def game_inv_def split: option.splits)

lemma rolls_left_zero:
  assumes "game_inv g" and "players g \<noteq> []" and "rolls_left g = 0"
  shows "currentFrameNumber g = 10"
proof (rule ccontr)
  assume "currentFrameNumber g \<noteq> 10"
  with assms(1) have c: "1 \<le> currentFrameNumber g" "currentFrameNumber g \<le> 9"
    by (auto simp: game_inv_def)
  from assms(1,2) have "0 < length (players g)"
    by simp
  with inv_frame_of [OF assms(1), of 1 "currentFrameNumber g - 1"] c obtain fr
    where "frame_of g 0 (currentFrameNumber g - 1) = Some fr"
    by auto
  with c assms(3) show False
    by (simp add: rolls_left_def split: if_splits)
qed

lemma single_player_roll:
  assumes inv: "game_inv g" and one: "length (players g) = 1" and cf: "currentFrameNumber g \<le> 9"
  shows "\<exists>g'. handleRoll roll g = Inr g' \<and> game_inv g' \<and> length (players g') = 1 \<and>
           rolls_left g' < rolls_left g"
proof -
  from one have ne: "players g \<noteq> []"
    by auto
  with inv cf obtain cp k fr where
    r: "currentPlayer g = Some cp" "playerNumber cp = Some k" "player_ok cp"
       "1 \<le> k" "k < int (length (players g)) \<or> (k = 1 \<and> length (players g) = 1)"
       "frame_of g (k - 1) (currentFrameNumber g - 1) = Some fr" "frame_ok fr"
    by (elim inv_roll_ready) auto
  from r(4,5) one have k1: "k = 1"
    by auto
  from inv have c1: "1 \<le> currentFrameNumber g"
    by (simp add: game_inv_def)
  from handleRoll_step [OF inv r(1-3) r(4,5) cf r(6,7), of roll] obtain g' where
    g': "handleRoll roll g = Inr g'" "game_inv g'" "length (players g') = length (players g)"
      "currentFrameNumber g' = (if rollNumber fr = 2 \<and> k = int (length (players g))
                               then currentFrameNumber g + 1 else currentFrameNumber g)"
      "rollNumber fr = 1 \<longrightarrow>
         (\<exists>fr2. frame_of g' (k - 1) (currentFrameNumber g - 1) = Some fr2 \<and> rollNumber fr2 = 2)"
    by blast
  have "rolls_left g' < rolls_left g"
  proof (cases "rollNumber fr = 2")
    case True
    with g'(4) k1 one have "currentFrameNumber g' = currentFrameNumber g + 1"
      by simp
    with r(6) k1 True cf c1 show ?thesis
      by (auto simp: rolls_left_def split: option.splits)
  next
    case False
    with r(7) have "rollNumber fr = 1"
      by (simp add: frame_ok_def)
    with g'(4,5) k1 r(6) cf c1 show ?thesis
      by (auto simp: rolls_left_def split: option.splits)
  qed
  with g' one show ?thesis
    by auto
qed

lemma single_player_play:
  assumes "game_inv g" and "length (players g) = 1" and "rolls_left g \<le> length rs"
  shows "\<exists>g'. play rs g = Inr g' \<and> game_inv g' \<and> length (players g') = 1 \<and> currentFrameNumber g' = 10"
  using assms
proof (induction rs arbitrary: g)
  case Nil
  then show ?case
    using rolls_left_zero [of g] by fastforce
next
  case (Cons r rs)
  show ?case
  proof (cases "currentFrameNumber g \<le> 9")
    case True
    from single_player_roll [OF Cons.prems(1,2) True, of r] obtain g' where
      g': "handleRoll r g = Inr g'" "game_inv g'" "length (players g') = 1" "rolls_left g' < rolls_left g"
      by blast
    with Cons.prems(3) have "rolls_left g' \<le> length rs"
      by simp
    with Cons.IH [OF g'(2,3)] g'(1) show ?thesis
      by simp
  next
    case False
    with Cons.prems(1) have c: "currentFrameNumber g = 10"
      by (simp add: game_inv_def)
    then have "rolls_left g = 0"
      by (simp add: rolls_left_def split: option.splits)
    with Cons.IH [OF Cons.prems(1,2)] c show ?thesis
      by simp
  qed
qed

subsection \<open>Games with two or more players\<close>

text \<open>
  With two or more players the current player is never the last one
  (\<open>turn_ok\<close>), so \<^verbatim>\<open>isLastPlayer\<close> is never true in \<open>handleRoll\<close>: no
  click dispatches \<^verbatim>\<open>nextFrame\<close> and no click writes the last player's frames.
\<close>

definition last_untouched :: "game \<Rightarrow> bool" where
  "last_untouched g \<longleftrightarrow>
     (2 \<le> length (players g) \<longrightarrow> frames (last (players g)) = framesInitialState)"

lemma multi_roll_step:
  assumes inv: "game_inv g" and two: "2 \<le> length (players g)" and run: "handleRoll roll g = Inr g'"
  shows "game_inv g' \<and> length (players g') = length (players g) \<and>
         currentFrameNumber g' = currentFrameNumber g \<and> last (players g') = last (players g)"
proof (cases "9 < currentFrameNumber g")
  case True
  with inv run show ?thesis by simp
next
  case False
  from two have ne: "players g \<noteq> []"
    by auto
  with inv False obtain cp k fr where
    r: "currentPlayer g = Some cp" "playerNumber cp = Some k" "player_ok cp"
       "1 \<le> k" "k < int (length (players g)) \<or> (k = 1 \<and> length (players g) = 1)"
       "frame_of g (k - 1) (currentFrameNumber g - 1) = Some fr" "frame_ok fr"
    by (elim inv_roll_ready) auto
  from r(5) two have kn: "k < int (length (players g))"
    by auto
  from handleRoll_step [OF inv r(1-3) r(4,5) _ r(6,7), of roll] False run kn obtain g'' where
    g'': "handleRoll roll g = Inr g''" "game_inv g''" "length (players g'') = length (players g)"
      "currentFrameNumber g'' = currentFrameNumber g"
      "\<forall>i < length (players g). i \<noteq> nat (k - 1) \<longrightarrow> players g'' ! i = players g ! i"
    by auto
  from g''(1) run have "g' = g''"
    by simp
  moreover from g''(5) kn r(4) ne have "players g'' ! (length (players g) - 1) = players g ! (length (players g) - 1)"
    by auto
  moreover from g''(3) ne have "players g'' \<noteq> []"
    by auto
  ultimately show ?thesis
    using g'' ne by (simp add: last_conv_nth)
qed

lemma multi_app_step:
  assumes "app_step s s'" and "game_inv s" and "2 \<le> length (players s)"
  shows "game_inv s' \<and> 2 \<le> length (players s') \<and> currentFrameNumber s' = currentFrameNumber s"
  using assms
proof (cases rule: app_step.cases)
  case add_player
  with assms(2,3) show ?thesis
    by (auto simp: handleAddPlayer_eq intro: handleAddPlayer_inv)
next
  case (roll roll)
  with multi_roll_step [OF assms(2,3)] assms(3) show ?thesis
    by auto
qed

lemma multi_steps_frame:
  assumes "app_step\<^sup>*\<^sup>* s s'" and "game_inv s" and "2 \<le> length (players s)"
  shows "game_inv s' \<and> 2 \<le> length (players s') \<and> currentFrameNumber s' = currentFrameNumber s"
  using assms
proof (induction rule: rtranclp_induct)
  case base
  then show ?case by simp
next
  case (step y z)
  then show ?case
    using multi_app_step [of y z] by auto
qed

lemma app_step_last_untouched:
  assumes "app_step s s'" and "game_inv s" and "last_untouched s"
  shows "last_untouched s'"
  using assms
proof (cases rule: app_step.cases)
  case add_player
  then show ?thesis
    by (simp add: handleAddPlayer_eq last_untouched_def playerInitialState_def)
next
  case (roll roll)
  show ?thesis
  proof (cases "2 \<le> length (players s)")
    case True
    with multi_roll_step [OF assms(2) True] roll assms(3) show ?thesis
      by (simp add: last_untouched_def)
  next
    case False
    with roll handleRoll_inv_length [OF assms(2)] show ?thesis
      by (simp add: last_untouched_def)
  qed
qed

lemma reachable_last_untouched: "reachable g \<Longrightarrow> game_inv g \<and> last_untouched g"
proof (induction rule: reachable.induct)
  case init
  show ?case
    using game_inv_init by (simp add: last_untouched_def gameInitialState_def)
next
  case (step s s')
  then show ?case
    using app_step_inv app_step_last_untouched by blast
qed

lemma reachable_empty:
  "reachable g \<Longrightarrow> players g = [] \<Longrightarrow> g = gameInitialState"
proof (induction rule: reachable.induct)
  case init
  show ?case by simp
next
  case (step s s')
  from step.hyps(2) show ?case
  proof (cases rule: app_step.cases)
    case add_player
    with step.prems show ?thesis
      by (simp add: handleAddPlayer_eq)
  next
    case (roll roll)
    from reachable_inv [OF step.hyps(1)] roll(2) step.prems have "players s = []"
      using handleRoll_inv_length by fastforce
    with step.IH have "s = gameInitialState"
      by simp
    with roll(2) show ?thesis
      by (simp add: handleRoll_empty gameInitialState_def)
  qed
qed

lemma play_reachable:
  "reachable g \<Longrightarrow> list_all valid_roll rs \<Longrightarrow> play rs g = Inr g' \<Longrightarrow> reachable g'"
proof (induction rs arbitrary: g)
  case Nil
  then show ?case by simp
next
  case (Cons r rs)
  then obtain g1 where g1: "handleRoll r g = Inr g1" "play rs g1 = Inr g'"
    by (auto simp: js_bind_eq_Inr)
  with Cons.prems have "reachable g1"
    by (auto intro: reachable.step app_step.roll)
  with Cons.IH Cons.prems(2) g1(2) show ?case
    by simp
qed

subsection \<open>calculateWinner\<close>

text \<open>
  The fold of \<^verbatim>\<open>calculateWinner\<close> keeps \<^verbatim>\<open>winnerScore\<close> at 0, so it returns the
  number of the last player whose score is positive, or -1.
\<close>

lemma calculateWinner_foldl:
  "foldl (\<lambda>(winnerScore, winner) player.
            (winnerScore, if winnerScore < score player then playerNumber player else winner))
     (0, w) ps =
   (0, case filter (\<lambda>p. 0 < score p) ps of [] \<Rightarrow> w | qs \<Rightarrow> playerNumber (last qs))"
proof (induction ps rule: rev_induct)
  case Nil
  then show ?case by simp
next
  case (snoc x xs)
  then show ?case
    by (auto split: list.splits)
qed

subsection \<open>Gutter balls in a one-player game\<close>

definition zero_frames :: "player \<Rightarrow> bool" where
  "zero_frames p \<longleftrightarrow> list_all (\<lambda>fr. total fr = 0 \<and> firstRoll fr = 0 \<and> secondRoll fr = 0) (frames p)"

lemma zero_frames_initial: "zero_frames (playerInitialState\<lparr>playerNumber := n\<rparr>)"
  by (simp add: zero_frames_def playerInitialState_def framesInitialState_def frameInitialState_def
      list_all_iff)

lemma zero_frames_set_frame:
  assumes "length (players g) = 1" and "zero_frames (hd (players g))"
    and "total x = 0" and "firstRoll x = 0" and "secondRoll x = 0"
  shows "zero_frames (hd (players (set_frame g 0 f x)))"
proof -
  from assms(1) obtain p where "players g = [p]"
    by (cases "players g") auto
  with assms show ?thesis
    by (auto simp: set_frame_def zero_frames_def)
qed

end
