(* ===== verification/RollEffects.thy ===== *)
theory RollEffects
  imports Machine
begin

text \<open>
  The exact effect of one click on \<^verbatim>\<open>Roll\<close> in a well-formed state, branch by
  branch of \<^verbatim>\<open>handleRoll\<close> (App.tsx lines 275--321): which frames are written and
  with what. The current player has number \<open>k\<close>, the frame cursor is \<open>c \<le> 9\<close>,
  \<open>fr\<close> is the current frame (\<^verbatim>\<open>frames[c - 1]\<close>) and \<open>nx\<close> the next one
  (\<^verbatim>\<open>frames[c]\<close>), and \<open>x\<close> is the pin count drawn.
\<close>

definition prev_total :: "game \<Rightarrow> int \<Rightarrow> int" where
  "prev_total g k =
     (if 2 \<le> currentFrameNumber g
      then total (frames (players g ! nat (k - 1)) ! nat (currentFrameNumber g - 2)) else 0)"

lemma roll_context:
  assumes inv: "game_inv g" and cp: "currentPlayer g = Some cp" "playerNumber cp = Some k"
    and k: "1 \<le> k" "k \<le> int (length (players g))" and cf: "currentFrameNumber g \<le> 9"
  obtains fr nx where "frame_of g (k - 1) (currentFrameNumber g - 1) = Some fr" "frame_ok fr"
    "frame_of g (k - 1) (currentFrameNumber g) = Some nx"
proof -
  from inv have c1: "1 \<le> currentFrameNumber g"
    by (simp add: game_inv_def)
  from inv_frame_of [OF inv k, of "currentFrameNumber g - 1"] c1 cf obtain fr where
    "frame_of g (k - 1) (currentFrameNumber g - 1) = Some fr" "frame_ok fr"
    by auto
  moreover from inv_frame_of [OF inv k, of "currentFrameNumber g"] c1 cf obtain nx where
    "frame_of g (k - 1) (currentFrameNumber g) = Some nx"
    by auto
  ultimately show ?thesis
    using that by blast
qed

subsection \<open>The reducer cases a roll dispatches\<close>

lemma recordStrike_eq:
  "frame_of s (k - 1) (currentFrameNumber s) = Some nx \<Longrightarrow>
   gameReducer s (RecordStrike (Some k) x) =
     Inr (set_frame s (k - 1) (currentFrameNumber s) (nx\<lparr>firstRoll := 10, total := 10, rollNumber := 2\<rparr>))"
  by (simp add: update_frame_Some)

lemma recordSpare_eq:
  "k \<noteq> 0 \<Longrightarrow> frame_of s (k - 1) (currentFrameNumber s) = Some nx \<Longrightarrow>
   gameReducer s (RecordSpare (Some k) x) =
     Inr (set_frame s (k - 1) (currentFrameNumber s) (nx\<lparr>total := 10, rollNumber := 2\<rparr>))"
  by (simp add: update_frame_Some)

lemma addToScore_eq:
  "k \<noteq> 0 \<Longrightarrow> frame_of s (k - 1) (currentFrameNumber s - 1) = Some fr \<Longrightarrow>
   gameReducer s (AddToScore (Some k) x) =
     Inr (set_frame s (k - 1) (currentFrameNumber s - 1)
       (if rollNumber fr = 1 then fr\<lparr>firstRoll := x, total := x\<rparr>
        else if rollNumber fr = 2 then fr\<lparr>secondRoll := firstRoll fr + x, total := firstRoll fr + x\<rparr>
        else fr))"
  by (simp add: update_frame_Some)

lemma nextRoll_eq:
  "frame_of s (k - 1) (currentFrameNumber s - 1) = Some fr \<Longrightarrow>
   gameReducer s (NextRoll (Some k)) =
     Inr (set_frame s (k - 1) (currentFrameNumber s - 1) (fr\<lparr>rollNumber := rollNumber fr + 1\<rparr>))"
  by (simp add: update_frame_Some)

lemma nextFrame_eq:
  assumes fr: "frame_of s (k - 1) (currentFrameNumber s - 1) = Some fr"
    and pf: "2 \<le> currentFrameNumber s \<Longrightarrow> frame_of s (k - 1) (currentFrameNumber s - 2) = Some pf"
  shows "gameReducer s (NextFrame (Some k)) =
     Inr ((set_frame s (k - 1) (currentFrameNumber s - 1)
            (fr\<lparr>total := (if 2 \<le> currentFrameNumber s then total pf else 0) + firstRoll fr + secondRoll fr\<rparr>))
          \<lparr>currentFrameNumber := currentFrameNumber s + 1\<rparr>)"
proof -
  from fr obtain p where p: "js_get (players s) (k - 1) = Some p"
    by (auto simp: frame_of_def split: option.splits)
  with pf have "2 \<le> currentFrameNumber s \<Longrightarrow> js_get (frames p) (currentFrameNumber s - 2) = Some pf"
    by (simp add: frame_of_def)
  with p show ?thesis
    by (cases "2 \<le> currentFrameNumber s") (simp_all add: update_frame_Some [OF fr])
qed

lemma prev_frame:
  assumes inv: "game_inv g" and k: "1 \<le> k" "k \<le> int (length (players g))"
    and c: "2 \<le> currentFrameNumber g"
  shows "frame_of g (k - 1) (currentFrameNumber g - 2) =
           Some (frames (players g ! nat (k - 1)) ! nat (currentFrameNumber g - 2))"
proof -
  from inv have "currentFrameNumber g \<le> 10"
    by (simp add: game_inv_def)
  with inv_frame_of [OF inv k, of "currentFrameNumber g - 2"] c obtain pf
    where "frame_of g (k - 1) (currentFrameNumber g - 2) = Some pf"
    by auto
  then show ?thesis
    by (simp add: frame_of_Some_iff)
qed

lemma roll_strike_first:
  assumes inv: "game_inv g" and cp: "currentPlayer g = Some cp" "playerNumber cp = Some k" "player_ok cp"
    and cf: "currentFrameNumber g \<le> 9"
    and fr: "frame_of g (k - 1) (currentFrameNumber g - 1) = Some fr" "frame_ok fr" "rollNumber fr = 1"
    and nx: "frame_of g (k - 1) (currentFrameNumber g) = Some nx"
    and x: "roll (roll_min fr) 10 = 10"
  shows "handleRoll roll g =
           Inr (set_frame (set_frame g (k - 1) (currentFrameNumber g)
                             (nx\<lparr>firstRoll := 10, total := 10, rollNumber := 2\<rparr>))
                  (k - 1) (currentFrameNumber g - 1) (fr\<lparr>rollNumber := 2\<rparr>))"
proof -
  let ?g1 = "set_frame g (k - 1) (currentFrameNumber g) (nx\<lparr>firstRoll := 10, total := 10, rollNumber := 2\<rparr>)"
  have "frame_of ?g1 (k - 1) (currentFrameNumber g - 1) = Some fr"
    using fr(1) by (simp add: frame_of_set_frame [OF nx])
  with x fr(3) show ?thesis
    by (simp add: handleRoll_unfold [OF inv cp cf fr(1,2)] record_action_def turn_action_def
        recordStrike_eq [OF nx] nextRoll_eq del: gameReducer.simps)
qed

lemma roll_first_open:
  assumes inv: "game_inv g" and cp: "currentPlayer g = Some cp" "playerNumber cp = Some k" "player_ok cp"
    and k: "1 \<le> k" and cf: "currentFrameNumber g \<le> 9"
    and fr: "frame_of g (k - 1) (currentFrameNumber g - 1) = Some fr" "frame_ok fr" "rollNumber fr = 1"
    and x: "roll (roll_min fr) 10 = a" "a \<noteq> 10"
  shows "handleRoll roll g =
           Inr (set_frame g (k - 1) (currentFrameNumber g - 1)
                  (fr\<lparr>firstRoll := a, total := a, rollNumber := 2\<rparr>))"
proof -
  let ?fr1 = "fr\<lparr>firstRoll := a, total := a\<rparr>"
  have "frame_of (set_frame g (k - 1) (currentFrameNumber g - 1) ?fr1) (k - 1) (currentFrameNumber g - 1) = Some ?fr1"
    by (simp add: frame_of_set_frame [OF fr(1)])
  with x fr(3) k show ?thesis
    by (simp add: handleRoll_unfold [OF inv cp cf fr(1,2)] record_action_def turn_action_def
        addToScore_eq [OF _ fr(1)] nextRoll_eq set_frame_twice [OF fr(1)] del: gameReducer.simps)
qed

lemma roll_second_open_last:
  assumes inv: "game_inv g" and cp: "currentPlayer g = Some cp" "playerNumber cp = Some k" "player_ok cp"
    and k: "1 \<le> k" "k = int (length (players g))" and cf: "currentFrameNumber g \<le> 9"
    and fr: "frame_of g (k - 1) (currentFrameNumber g - 1) = Some fr" "frame_ok fr" "rollNumber fr = 2"
    and x: "roll (roll_min fr) 10 = b" "b \<noteq> 10"
  shows "handleRoll roll g =
           Inr ((set_frame g (k - 1) (currentFrameNumber g - 1)
                   (fr\<lparr>secondRoll := firstRoll fr + b,
                       total := prev_total g k + firstRoll fr + (firstRoll fr + b)\<rparr>))
                \<lparr>currentFrameNumber := currentFrameNumber g + 1\<rparr>)"
proof -
  let ?c = "currentFrameNumber g"
  let ?fr1 = "fr\<lparr>secondRoll := firstRoll fr + b, total := firstRoll fr + b\<rparr>"
  let ?g1 = "set_frame g (k - 1) (?c - 1) ?fr1"
  have f1: "frame_of ?g1 (k - 1) (?c - 1) = Some ?fr1"
    by (simp add: frame_of_set_frame [OF fr(1)])
  let ?pf = "frames (players g ! nat (k - 1)) ! nat (?c - 2)"
  from k(2) have kle: "k \<le> int (length (players g))"
    by simp
  have pf: "frame_of ?g1 (k - 1) (?c - 2) = Some ?pf" if "2 \<le> ?c"
    using prev_frame [OF inv k(1) kle that] by (simp add: frame_of_set_frame [OF fr(1)])
  have g2: "gameReducer ?g1 (NextFrame (Some k)) =
      Inr ((set_frame ?g1 (k - 1) (?c - 1)
             (?fr1\<lparr>total := prev_total g k + firstRoll ?fr1 + secondRoll ?fr1\<rparr>))
           \<lparr>currentFrameNumber := ?c + 1\<rparr>)"
    using nextFrame_eq [of ?g1 k ?fr1 ?pf] f1 pf by (simp add: prev_total_def del: gameReducer.simps)
  from k(2) cf fr(3) have ta: "turn_action g (Some k) fr = NextFrame (Some k)"
    by (simp add: turn_action_def)
  from x have ra: "record_action (Some k) fr (-1) (-1) b = AddToScore (Some k) b"
    by (simp add: record_action_def)
  from x k(1) have "handleRoll roll g = js_bind (gameReducer ?g1 (NextFrame (Some k))) Inr"
    by (simp add: handleRoll_unfold [OF inv cp cf fr(1,2)] ta ra addToScore_eq [OF _ fr(1)] fr(3)
        del: gameReducer.simps)
  with g2 show ?thesis
    by (simp add: set_frame_twice [OF fr(1)])
qed

lemma roll_second_spare_last:
  assumes inv: "game_inv g" and cp: "currentPlayer g = Some cp" "playerNumber cp = Some k" "player_ok cp"
    and k: "1 \<le> k" "k = int (length (players g))" and cf: "currentFrameNumber g \<le> 9"
    and fr: "frame_of g (k - 1) (currentFrameNumber g - 1) = Some fr" "frame_ok fr" "rollNumber fr = 2"
    and nx: "frame_of g (k - 1) (currentFrameNumber g) = Some nx"
    and x: "roll (roll_min fr) 10 = 10"
  shows "handleRoll roll g =
           Inr ((set_frame (set_frame g (k - 1) (currentFrameNumber g) (nx\<lparr>total := 10, rollNumber := 2\<rparr>))
                   (k - 1) (currentFrameNumber g - 1)
                   (fr\<lparr>total := prev_total g k + firstRoll fr + secondRoll fr\<rparr>))
                \<lparr>currentFrameNumber := currentFrameNumber g + 1\<rparr>)"
proof -
  let ?c = "currentFrameNumber g"
  let ?g1 = "set_frame g (k - 1) ?c (nx\<lparr>total := 10, rollNumber := 2\<rparr>)"
  have f1: "frame_of ?g1 (k - 1) (?c - 1) = Some fr"
    using fr(1) by (simp add: frame_of_set_frame [OF nx])
  from k(2) have kle: "k \<le> int (length (players g))"
    by simp
  let ?pf = "frames (players g ! nat (k - 1)) ! nat (?c - 2)"
  have pf: "frame_of ?g1 (k - 1) (?c - 2) = Some ?pf" if "2 \<le> ?c"
    using prev_frame [OF inv k(1) kle that] by (simp add: frame_of_set_frame [OF nx])
  have g2: "gameReducer ?g1 (NextFrame (Some k)) =
      Inr ((set_frame ?g1 (k - 1) (?c - 1)
             (fr\<lparr>total := prev_total g k + firstRoll fr + secondRoll fr\<rparr>))
           \<lparr>currentFrameNumber := ?c + 1\<rparr>)"
    using nextFrame_eq [of ?g1 k fr ?pf] f1 pf by (simp add: prev_total_def del: gameReducer.simps)
  from k(2) cf fr(3) have ta: "turn_action g (Some k) fr = NextFrame (Some k)"
    by (simp add: turn_action_def)
  from x fr(3) have ra: "record_action (Some k) fr (-1) (-1) (roll (roll_min fr) 10) = RecordSpare (Some k) 10"
    by (simp add: record_action_def)
  from k(1) have "handleRoll roll g = js_bind (gameReducer ?g1 (NextFrame (Some k))) Inr"
    by (simp add: handleRoll_unfold [OF inv cp cf fr(1,2)] ta ra recordSpare_eq [OF _ nx]
        del: gameReducer.simps)
  with g2 show ?thesis
    by simp
qed


subsection \<open>An open frame of a one-player game, roll by roll\<close>

lemma prev_total_set_frame:
  assumes "frame_of g p (currentFrameNumber g - 1) = Some fr"
  shows "prev_total (set_frame g p (currentFrameNumber g - 1) x) k = prev_total g k"
proof (cases "2 \<le> currentFrameNumber g")
  case True
  from assms have p: "0 \<le> p" "nat p < length (players g)"
    by (auto simp: frame_of_Some_iff)
  from True have "nat (currentFrameNumber g - 2) \<noteq> nat (currentFrameNumber g - 1)"
    by simp
  with p True show ?thesis
    by (auto simp: prev_total_def set_frame_def nth_list_update)
next
  case False
  then show ?thesis
    by (simp add: prev_total_def)
qed

lemma open_frame_two_rolls:
  assumes inv: "game_inv g" and one: "length (players g) = 1" and cf: "currentFrameNumber g \<le> 9"
    and fr: "frame_of g 0 (currentFrameNumber g - 1) = Some fr" "rollNumber fr = 1"
    and a: "rollA (roll_min fr) 10 = a" "a \<noteq> 10"
    and b: "rollB (if 0 < a then 10 - a else 0) 10 = b" "b \<noteq> 10"
  shows "\<exists>g2 fr2. play [rollA, rollB] g = Inr g2 \<and> currentFrameNumber g2 = currentFrameNumber g + 1 \<and>
           frame_of g2 0 (currentFrameNumber g - 1) = Some fr2 \<and>
           firstRoll fr2 = a \<and> secondRoll fr2 = a + b \<and> total fr2 = prev_total g 1 + 2 * a + b"
proof -
  let ?c = "currentFrameNumber g"
  from one have ne: "players g \<noteq> []"
    by auto
  from inv ne obtain cp k where cp: "currentPlayer g = Some cp" "playerNumber cp = Some k" "player_ok cp"
    and k: "1 \<le> k" "k < int (length (players g)) \<or> (k = 1 \<and> length (players g) = 1)"
    by (elim inv_current) auto
  from k one have k1: "k = 1"
    by auto
  from inv_frame_ok [OF inv fr(1)] have ok: "frame_ok fr" .
  let ?fr1 = "fr\<lparr>firstRoll := a, total := a, rollNumber := 2\<rparr>"
  let ?g1 = "set_frame g 0 (?c - 1) ?fr1"
  from fr(1) k1 have fk: "frame_of g (k - 1) (?c - 1) = Some fr"
    by simp
  from roll_first_open [where roll = rollA, OF inv cp k(1) cf fk ok fr(2) a] k1 have rollA: "handleRoll rollA g = Inr ?g1"
    by simp
  from ok have ok1: "frame_ok ?fr1"
    by (simp add: frame_ok_def)
  have inv1: "game_inv ?g1"
    by (rule game_inv_set_frame [OF inv fr(1) ok1])
  have f1: "frame_of ?g1 (1 - 1) (currentFrameNumber ?g1 - 1) = Some ?fr1"
    by (simp add: frame_of_set_frame [OF fr(1)])
  have "roll_min ?fr1 = (if 0 < a then 10 - a else 0)"
    by (simp add: roll_min_def getMinOfRange_def)
  with b(1) have min1: "rollB (roll_min ?fr1) 10 = b"
    by simp
  from cp k1 have cp1: "currentPlayer ?g1 = Some cp" "playerNumber cp = Some 1"
    by simp_all
  have len1: "(1::int) = int (length (players ?g1))" and cf1: "currentFrameNumber ?g1 \<le> 9"
    using one cf by simp_all
  have rn1: "rollNumber ?fr1 = 2"
    by simp
  from roll_second_open_last [where roll = rollB, OF inv1 cp1 cp(3) order.refl len1 cf1 f1 ok1 rn1 min1 b(2)]
  have rollB: "handleRoll rollB ?g1 =
      Inr ((set_frame ?g1 0 (?c - 1)
              (?fr1\<lparr>secondRoll := a + b, total := prev_total ?g1 1 + a + (a + b)\<rparr>))
           \<lparr>currentFrameNumber := ?c + 1\<rparr>)"
    by simp
  have "prev_total ?g1 1 = prev_total g 1"
    by (rule prev_total_set_frame [OF fr(1)])
  with rollA rollB show ?thesis
    by (simp add: frame_of_set_frame [OF fr(1)] set_frame_twice [OF fr(1)])
qed

subsection \<open>Gutter balls\<close>

lemma gutter_frame:
  assumes "game_inv g" and "length (players g) = 1" and "zero_frames (hd (players g))"
    and "frame_of g 0 f = Some fr"
  shows "total fr = 0 \<and> firstRoll fr = 0 \<and> secondRoll fr = 0"
proof -
  from assms(2) obtain p where p: "players g = [p]"
    by (cases "players g") auto
  with assms(3,4) show ?thesis
    by (auto simp: zero_frames_def frame_of_Some_iff list_all_length)
qed

lemma gutter_roll:
  assumes inv: "game_inv g" and one: "length (players g) = 1" and z: "zero_frames (hd (players g))"
  shows "\<exists>g'. handleRoll (pick 0) g = Inr g' \<and> game_inv g' \<and> length (players g') = 1 \<and>
           zero_frames (hd (players g'))"
proof (cases "9 < currentFrameNumber g")
  case True
  with assms show ?thesis by simp
next
  case False
  then have cf: "currentFrameNumber g \<le> 9"
    by simp
  from one have ne: "players g \<noteq> []"
    by auto
  with inv cf obtain cp k fr where
    r: "currentPlayer g = Some cp" "playerNumber cp = Some k" "player_ok cp"
       "1 \<le> k" "k < int (length (players g)) \<or> (k = 1 \<and> length (players g) = 1)"
       "frame_of g (k - 1) (currentFrameNumber g - 1) = Some fr" "frame_ok fr"
    by (elim inv_roll_ready) auto
  from r(4,5) one have k1: "k = 1"
    by auto
  with r(6) have fr0: "frame_of g 0 (currentFrameNumber g - 1) = Some fr"
    by simp
  from gutter_frame [OF inv one z fr0] have zfr: "total fr = 0" "firstRoll fr = 0" "secondRoll fr = 0"
    by auto
  then have pin: "pick 0 (roll_min fr) 10 = 0"
    by (simp add: pick_def roll_min_def)
  from handleRoll_step [OF inv r(1-3) r(4,5) cf r(6,7), of "pick 0"] obtain g' where
    g': "handleRoll (pick 0) g = Inr g'" "game_inv g'" "length (players g') = length (players g)"
    by blast
  from r(7) consider (first) "rollNumber fr = 1" | (second) "rollNumber fr = 2"
    by (auto simp: frame_ok_def)
  then have "zero_frames (hd (players g'))"
  proof cases
    case first
    from roll_first_open [where roll = "pick 0", OF inv r(1-4) cf r(6,7) first pin] g'(1) k1
    have "g' = set_frame g 0 (currentFrameNumber g - 1) (fr\<lparr>firstRoll := 0, total := 0, rollNumber := 2\<rparr>)"
      by simp
    with zero_frames_set_frame [OF one z] zfr show ?thesis
      by simp
  next
    case second
    from k1 one have kn: "k = int (length (players g))"
      by simp
    have prev: "prev_total g 1 = 0"
    proof (cases "2 \<le> currentFrameNumber g")
      case True
      from prev_frame [OF inv, of 1] True one have "frame_of g 0 (currentFrameNumber g - 2) =
          Some (frames (players g ! 0) ! nat (currentFrameNumber g - 2))"
        by simp
      from gutter_frame [OF inv one z this] True show ?thesis
        by (simp add: prev_total_def)
    qed (simp add: prev_total_def)
    from roll_second_open_last [where roll = "pick 0", OF inv r(1-4) kn cf r(6,7) second pin] g'(1) k1 prev zfr
    have "g' = (set_frame g 0 (currentFrameNumber g - 1) (fr\<lparr>secondRoll := 0, total := 0\<rparr>))
                 \<lparr>currentFrameNumber := currentFrameNumber g + 1\<rparr>"
      by simp
    with zero_frames_set_frame [OF one z] zfr show ?thesis
      by simp
  qed
  with g' one show ?thesis
    by auto
qed

lemma gutter_play:
  assumes "game_inv g" and "length (players g) = 1" and "zero_frames (hd (players g))"
  shows "\<exists>g'. play (replicate n (pick 0)) g = Inr g' \<and> game_inv g' \<and> length (players g') = 1 \<and>
           zero_frames (hd (players g'))"
  using assms
proof (induction n arbitrary: g)
  case 0
  then show ?case by simp
next
  case (Suc n)
  from gutter_roll [OF Suc.prems] obtain g1 where
    "handleRoll (pick 0) g = Inr g1" "game_inv g1" "length (players g1) = 1" "zero_frames (hd (players g1))"
    by blast
  with Suc.IH [of g1] show ?case
    by simp
qed

end
