(* ===== verification/Scorecard.thy ===== *)
theory Scorecard
  imports RollEffects
begin

text \<open>
  A one-player game seen as a score card: the frame cursor \<^verbatim>\<open>currentFrameNumber\<close>
  and the frames of the only player. \<open>card_step\<close> is the effect of one click on
  \<^verbatim>\<open>Roll\<close> on the card alone, written as a pure function of the card and the pin count
  drawn, with no snapshot, no action queue and no \<^verbatim>\<open>TypeError\<close>; \<open>card_play\<close>
  runs it over a sequence of random sources. The lemmas show that \<open>handleRoll\<close> and
  \<open>play\<close> refine them on every well-formed one-player state: the click never throws
  and its effect on the card is exactly \<open>card_step\<close>.
\<close>

type_synonym card = "int \<times> frame list"

definition card_of :: "game \<Rightarrow> card" where
  "card_of g = (currentFrameNumber g, frames (hd (players g)))"

definition card_pins :: "(int \<Rightarrow> int \<Rightarrow> int) \<Rightarrow> card \<Rightarrow> int" where
  "card_pins roll cd = roll (roll_min (snd cd ! nat (fst cd - 1))) 10"

fun card_step :: "card \<Rightarrow> int \<Rightarrow> card" where
  "card_step (c, fs) x =
     (if 9 < c then (c, fs)
      else
        let fr = fs ! nat (c - 1);
            prev = (if 2 \<le> c then total (fs ! nat (c - 2)) else 0)
        in if rollNumber fr = 1 then
             if x = 10
             then (c, fs[nat c := (fs ! nat c)\<lparr>firstRoll := 10, total := 10, rollNumber := 2\<rparr>,
                        nat (c - 1) := fr\<lparr>rollNumber := 2\<rparr>])
             else (c, fs[nat (c - 1) := fr\<lparr>firstRoll := x, total := x, rollNumber := 2\<rparr>])
           else if x = 10
           then (c + 1, fs[nat c := (fs ! nat c)\<lparr>total := 10, rollNumber := 2\<rparr>,
                          nat (c - 1) := fr\<lparr>total := prev + firstRoll fr + secondRoll fr\<rparr>])
           else (c + 1, fs[nat (c - 1) := fr\<lparr>secondRoll := firstRoll fr + x,
                                           total := prev + firstRoll fr + (firstRoll fr + x)\<rparr>]))"

fun card_play :: "(int \<Rightarrow> int \<Rightarrow> int) list \<Rightarrow> card \<Rightarrow> card" where
  "card_play [] cd = cd"
| "card_play (r # rs) cd = card_play rs (card_step cd (card_pins r cd))"

text \<open>
  \<open>card_inv\<close>: every finished frame (left of the cursor) shows the previous frame's
  total plus its own \<open>firstRoll\<close> and \<open>secondRoll\<close>, with no bonus.
\<close>

definition card_inv :: "card \<Rightarrow> bool" where
  "card_inv cd \<longleftrightarrow>
     (\<forall>j < nat (fst cd - 1). total (snd cd ! j) =
        (if j = 0 then 0 else total (snd cd ! (j - 1))) + firstRoll (snd cd ! j) + secondRoll (snd cd ! j))"

lemma card_of_set_frame [simp]:
  "length (players g) = 1 \<Longrightarrow>
   card_of (set_frame g 0 f v) = (currentFrameNumber g, (snd (card_of g))[nat f := v])"
  by (cases "players g") (auto simp: card_of_def set_frame_def)

lemma card_of_cursor [simp]:
  "card_of (g\<lparr>currentFrameNumber := c\<rparr>) = (c, snd (card_of g))"
  by (simp add: card_of_def)

lemma single_frame_of:
  assumes "length (players g) = 1" and "frame_of g 0 f = Some fr"
  shows "fr = snd (card_of g) ! nat f"
  using assms by (cases "players g") (auto simp: card_of_def frame_of_Some_iff)

lemma handleRoll_card:
  assumes inv: "game_inv g" and one: "length (players g) = 1"
  shows "\<exists>g'. handleRoll roll g = Inr g' \<and> game_inv g' \<and> length (players g') = 1 \<and>
           card_of g' = card_step (card_of g) (card_pins roll (card_of g))"
proof (cases "9 < currentFrameNumber g")
  case True
  then show ?thesis
    using inv one by (simp add: card_of_def)
next
  case False
  let ?c = "currentFrameNumber g"
  let ?fs = "snd (card_of g)"
  have cf: "?c \<le> 9" and c1: "1 \<le> ?c"
    using False inv by (auto simp: game_inv_def)
  from one have ne: "players g \<noteq> []"
    by auto
  with inv cf obtain cp k fr where
    r: "currentPlayer g = Some cp" "playerNumber cp = Some k" "player_ok cp"
       "1 \<le> k" "k < int (length (players g)) \<or> (k = 1 \<and> length (players g) = 1)"
       "frame_of g (k - 1) (?c - 1) = Some fr" "frame_ok fr"
    by (elim inv_roll_ready) auto
  from r(4,5) one have k1: "k = 1"
    by auto
  with one have kn: "k = int (length (players g))" and kle: "k \<le> int (length (players g))"
    by simp_all
  from roll_context [OF inv r(1,2) r(4) kle cf] k1 obtain nx where
    nx: "frame_of g (k - 1) ?c = Some nx"
    by auto
  from r(6) nx k1 have fr0: "frame_of g 0 (?c - 1) = Some fr" and nx0: "frame_of g 0 ?c = Some nx"
    by simp_all
  have frs: "?fs ! nat (?c - 1) = fr" and nxs: "?fs ! nat ?c = nx"
    using single_frame_of [OF one fr0] single_frame_of [OF one nx0] by simp_all
  have prev: "prev_total g k = (if 2 \<le> ?c then total (?fs ! nat (?c - 2)) else 0)"
    using one k1 by (cases "players g") (simp_all add: prev_total_def card_of_def)
  define x where "x = roll (roll_min fr) 10"
  have pins: "card_pins roll (card_of g) = x"
    using frs by (simp add: card_pins_def card_of_def x_def)
  have cd: "card_of g = (?c, ?fs)"
    by (simp add: card_of_def)
  from handleRoll_inv_length [OF inv, of roll] handleRoll_step [OF inv r(1-3) r(4,5) cf r(6,7), of roll]
  obtain g' where g': "handleRoll roll g = Inr g'" "game_inv g'" "length (players g') = 1"
    using one by fastforce
  from r(7) consider (first) "rollNumber fr = 1" | (second) "rollNumber fr = 2"
    by (auto simp: frame_ok_def)
  then have "card_of g' = card_step (?c, ?fs) x"
  proof cases
    case first
    show ?thesis
    proof (cases "x = 10")
      case True
      from roll_strike_first [where roll = roll, OF inv r(1-3) cf r(6,7) first nx] True g'(1) k1
      have "g' = set_frame (set_frame g 0 ?c (nx\<lparr>firstRoll := 10, total := 10, rollNumber := 2\<rparr>))
                   0 (?c - 1) (fr\<lparr>rollNumber := 2\<rparr>)"
        by (simp add: x_def)
      with one cf first True frs nxs show ?thesis
        by (simp add: Let_def)
    next
      case False
      from roll_first_open [where roll = roll, OF inv r(1-4) cf r(6,7) first x_def [symmetric] False] g'(1) k1
      have "g' = set_frame g 0 (?c - 1) (fr\<lparr>firstRoll := x, total := x, rollNumber := 2\<rparr>)"
        by simp
      with one cf first False frs show ?thesis
        by (simp add: Let_def)
    qed
  next
    case second
    show ?thesis
    proof (cases "x = 10")
      case True
      from roll_second_spare_last [where roll = roll, OF inv r(1-3) r(4) kn cf r(6,7) second nx] True g'(1) k1
      have "g' = (set_frame (set_frame g 0 ?c (nx\<lparr>total := 10, rollNumber := 2\<rparr>))
                   0 (?c - 1) (fr\<lparr>total := prev_total g k + firstRoll fr + secondRoll fr\<rparr>))
                 \<lparr>currentFrameNumber := ?c + 1\<rparr>"
        by (simp add: x_def)
      with one cf second True frs nxs prev show ?thesis
        by (simp add: Let_def)
    next
      case False
      from roll_second_open_last [where roll = roll, OF inv r(1-4) kn cf r(6,7) second x_def [symmetric] False] g'(1) k1
      have "g' = (set_frame g 0 (?c - 1) (fr\<lparr>secondRoll := firstRoll fr + x,
                    total := prev_total g k + firstRoll fr + (firstRoll fr + x)\<rparr>))
                 \<lparr>currentFrameNumber := ?c + 1\<rparr>"
        by simp
      with one cf second False frs prev show ?thesis
        by (simp add: Let_def)
    qed
  qed
  with g' pins cd show ?thesis
    by auto
qed

lemma play_card:
  assumes "game_inv g" and "length (players g) = 1"
  shows "\<exists>g'. play rs g = Inr g' \<and> game_inv g' \<and> length (players g') = 1 \<and>
           card_of g' = card_play rs (card_of g)"
  using assms
proof (induction rs arbitrary: g)
  case Nil
  then show ?case by simp
next
  case (Cons r rs)
  from handleRoll_card [OF Cons.prems, of r] obtain g1 where
    "handleRoll r g = Inr g1" "game_inv g1" "length (players g1) = 1"
    "card_of g1 = card_step (card_of g) (card_pins r (card_of g))"
    by blast
  with Cons.IH [of g1] show ?case
    by simp
qed

subsection \<open>The running total of a one-player card\<close>

lemma card_inv_same:
  assumes "card_inv (c, fs)" and "\<forall>j < nat (c - 1). fs' ! j = fs ! j"
  shows "card_inv (c, fs')"
proof -
  have "j - 1 < nat (c - 1)" if "j < nat (c - 1)" for j
    using that by simp
  with assms show ?thesis
    by (simp add: card_inv_def)
qed

lemma card_inv_next:
  assumes inv: "card_inv (c, fs)" and c: "1 \<le> c" and same: "\<forall>j < nat (c - 1). fs' ! j = fs ! j"
    and new: "total (fs' ! nat (c - 1)) =
      (if 2 \<le> c then total (fs ! nat (c - 2)) else 0) + firstRoll (fs' ! nat (c - 1)) + secondRoll (fs' ! nat (c - 1))"
  shows "card_inv (c + 1, fs')"
  unfolding card_inv_def
proof (intro allI impI)
  fix j
  assume j: "j < nat (fst (c + 1, fs') - 1)"
  show "total (snd (c + 1, fs') ! j) = (if j = 0 then 0 else total (snd (c + 1, fs') ! (j - 1))) +
          firstRoll (snd (c + 1, fs') ! j) + secondRoll (snd (c + 1, fs') ! j)"
  proof (cases "j < nat (c - 1)")
    case True
    with card_inv_same [OF inv same] show ?thesis
      by (simp add: card_inv_def)
  next
    case False
    with j c have jc: "j = nat (c - 1)"
      by simp
    show ?thesis
    proof (cases "2 \<le> c")
      case True
      then have "j - 1 = nat (c - 2)" "j - 1 < nat (c - 1)" "j \<noteq> 0"
        using jc by simp_all
      with same new jc True show ?thesis
        by simp
    next
      case False
      with c jc have "j = 0" "\<not> 2 \<le> c"
        by simp_all
      with new jc show ?thesis
        by simp
    qed
  qed
qed

lemma card_inv_next1:
  assumes "card_inv (c, fs)" and "1 \<le> c" and "nat (c - 1) < length fs"
    and "total v = (if 2 \<le> c then total (fs ! nat (c - 2)) else 0) + firstRoll v + secondRoll v"
  shows "card_inv (c + 1, fs[nat (c - 1) := v])"
  using assms by (intro card_inv_next) auto

lemma card_inv_next2:
  assumes "card_inv (c, fs)" and "1 \<le> c" and "nat (c - 1) < length fs"
    and "total v = (if 2 \<le> c then total (fs ! nat (c - 2)) else 0) + firstRoll v + secondRoll v"
  shows "card_inv (c + 1, fs[nat c := u, nat (c - 1) := v])"
  using assms by (intro card_inv_next) auto

lemma card_step_inv:
  assumes inv: "card_inv (c, fs)" and c: "1 \<le> c" and len: "length fs = 10"
  shows "card_inv (card_step (c, fs) x)"
proof (cases "9 < c")
  case True
  with inv show ?thesis by simp
next
  case False
  let ?fr = "fs ! nat (c - 1)"
  have below: "\<forall>j < nat (c - 1). (fs[nat c := u, nat (c - 1) := v]) ! j = fs ! j"
    "\<forall>j < nat (c - 1). (fs[nat (c - 1) := v]) ! j = fs ! j" for u v
    using c by auto
  from False c len have idx: "nat (c - 1) < length fs"
    by simp
  show ?thesis
  proof (cases "rollNumber ?fr = 1")
    case True
    with False show ?thesis
      by (simp add: Let_def card_inv_same [OF inv below(1)] card_inv_same [OF inv below(2)])
  next
    case rn2: False
    show ?thesis
    proof (cases "x = 10")
      case True
      with False rn2 show ?thesis
        by (simp add: Let_def split del: if_split) (rule card_inv_next2 [OF inv c idx], simp)
    next
      case x: False
      with False rn2 show ?thesis
        by (simp add: Let_def split del: if_split) (rule card_inv_next1 [OF inv c idx], simp)
    qed
  qed
qed

lemma card_of_length:
  "game_inv g \<Longrightarrow> length (players g) = 1 \<Longrightarrow> 1 \<le> fst (card_of g) \<and> length (snd (card_of g)) = 10"
  by (cases "players g") (auto simp: card_of_def game_inv_def player_ok_def)


lemma addPlayer_one_from_empty: "reachable s \<Longrightarrow> handleAddPlayer s = Inr s' \<Longrightarrow> length (players s') = 1 \<Longrightarrow> players s = []"
  by (simp add: handleAddPlayer_eq)

lemma addPlayer_first_cursor: "reachable s \<Longrightarrow> handleAddPlayer s = Inr s' \<Longrightarrow> players s = [] \<Longrightarrow> currentFrameNumber s' = 1"
proof -
  assume a: "reachable s" "handleAddPlayer s = Inr s'" "players s = []"
  from reachable_empty [OF a(1,3)] have "currentFrameNumber s = 1"
    by (simp add: gameInitialState_def)
  with handleAddPlayer_eq(2) [OF a(2)] show ?thesis
    by simp
qed

lemma card_inv_start: "currentFrameNumber s' = 1 \<Longrightarrow> card_inv (card_of s')"
  by (simp add: card_inv_def card_of_def)


lemma handleRoll_card_eq: "game_inv s \<Longrightarrow> length (players s) = 1 \<Longrightarrow> handleRoll roll s = Inr s' \<Longrightarrow>
  card_of s' = card_step (card_of s) (card_pins roll (card_of s))"
  using handleRoll_card [of s roll] by auto


lemma reachable_card_inv:
  "reachable g \<Longrightarrow> length (players g) = 1 \<Longrightarrow> card_inv (card_of g)"
proof (induction rule: reachable.induct)
  case init
  then show ?case by (simp add: gameInitialState_def)
next
  case (step s s')
  from step.hyps(2) show ?case
  proof (cases rule: app_step.cases)
    case add_player
    with step.hyps(1) step.prems show ?thesis
      by (intro card_inv_start addPlayer_first_cursor [OF step.hyps(1) add_player] addPlayer_one_from_empty)
  next
    case (roll roll)
    note inv = reachable_inv [OF step.hyps(1)]
    from handleRoll_inv_length [OF inv roll(2)] step.prems have one: "length (players s) = 1"
      by simp
    obtain c fs where cd: "card_of s = (c, fs)"
      by fastforce
    from card_of_length [OF inv one] cd have "1 \<le> c" "length fs = 10"
      by simp_all
    from card_step_inv [OF _ this] step.IH [OF one] cd have "card_inv (card_step (card_of s) (card_pins roll (card_of s)))"
      by (simp del: card_step.simps)
    with handleRoll_card_eq [OF inv one roll(2)] show ?thesis
      by simp
  qed
qed

end
