(* ===== verification/Scenarios.thy ===== *)
theory Scenarios
  imports Scorecard
begin

text \<open>
  Concrete inputs for the witnesses: \<open>game_one\<close> and \<open>game_two\<close> are the
  states after one and two clicks on \<^verbatim>\<open>Add player\<close> from
  \<^verbatim>\<open>gameInitialState\<close>; the random sources are \<open>pick k\<close> (theory \<open>Machine\<close>).
\<close>

definition game_one :: game where
  "game_one =
     (push_player gameInitialState)\<lparr>currentPlayer := Some (playerInitialState\<lparr>playerNumber := Some 1\<rparr>)\<rparr>"

definition game_two :: game where
  "game_two = push_player game_one"

lemma handleAddPlayer_initial: "handleAddPlayer gameInitialState = Inr game_one"
  by (simp add: handleAddPlayer_def game_one_def push_player_def gameInitialState_def js_get_def)

lemma handleAddPlayer_one: "handleAddPlayer game_one = Inr game_two"
  by (simp add: handleAddPlayer_def game_two_def game_one_def push_player_def gameInitialState_def)

lemma reachable_game_one: "reachable game_one"
  by (rule reachable.step [OF reachable.init app_step.add_player [OF handleAddPlayer_initial]])

lemma reachable_game_two: "reachable game_two"
  by (rule reachable.step [OF reachable_game_one app_step.add_player [OF handleAddPlayer_one]])

lemma game_one_players [simp]: "players game_one = [playerInitialState\<lparr>playerNumber := Some 1\<rparr>]"
  by (simp add: game_one_def push_player_def gameInitialState_def)

lemma game_two_players [simp]:
  "players game_two = [playerInitialState\<lparr>playerNumber := Some 1\<rparr>, playerInitialState\<lparr>playerNumber := Some 2\<rparr>]"
  by (simp add: game_two_def push_player_def)

lemma game_one_facts:
  "currentFrameNumber game_one = 1"
  "frame_of game_one 0 0 = Some frameInitialState"
  "frame_of game_one 0 1 = Some frameInitialState"
  "currentPlayer game_one = Some (playerInitialState\<lparr>playerNumber := Some 1\<rparr>)"
  by (simp_all add: game_one_def push_player_def gameInitialState_def frame_of_def js_get_def
      playerInitialState_def framesInitialState_def)

lemma card_of_game_one: "card_of game_one = (1, framesInitialState)"
  by (simp add: card_of_def game_one_facts playerInitialState_def)

end
