(* ===== verification/BowlingSpec.thy ===== *)
theory BowlingSpec
  imports Main
begin

text \<open>
  The scoring rules the program is meant to implement, from the repository's
  specification (sections 4 and 8): the standard ten-pin score of one player's
  sequence of rolls. A strike scores 10 plus the next two rolls, a spare 10 plus the
  next roll, an open frame its two rolls; the tenth frame's fill balls count only as
  bonus. \<open>spec_score n rs\<close> scores the next \<open>n\<close> frames of \<open>rs\<close>. This is an
  abstract specification: no code of the repository computes it.
\<close>

definition next_ball :: "int list \<Rightarrow> int" where
  "next_ball rs = (case rs of [] \<Rightarrow> 0 | z # _ \<Rightarrow> z)"

fun spec_score :: "nat \<Rightarrow> int list \<Rightarrow> int" where
  "spec_score 0 rs = 0"
| "spec_score (Suc n) [] = 0"
| "spec_score (Suc n) [x] = x"
| "spec_score (Suc n) (x # y # rs) =
     (if x = 10 then 10 + y + next_ball rs + spec_score n (y # rs)
      else if x + y = 10 then 10 + next_ball rs + spec_score n rs
      else x + y + spec_score n rs)"

definition game_score :: "int list \<Rightarrow> int" where
  "game_score rs = spec_score 10 rs"

lemma spec_score_zeros: "spec_score n (replicate m 0) = 0"
proof (induction n arbitrary: m)
  case 0
  then show ?case by simp
next
  case (Suc n)
  show ?case
  proof (cases m)
    case 0
    then show ?thesis by simp
  next
    case (Suc m1)
    then show ?thesis
      using Suc.IH by (cases m1) simp_all
  qed
qed

lemma game_score_perfect: "game_score (replicate 12 10) = 300"
  by (simp add: game_score_def numeral_eq_Suc next_ball_def)

lemma game_score_gutter: "game_score (replicate 20 0) = 0"
  by (simp add: game_score_def spec_score_zeros)

end
