(* ===== verification/Spec2Isabelle.thy ===== *)
theory Spec2Isabelle
  imports Scenarios Scorecard BowlingSpec
begin

text \<open>
  \<^bold>\<open>A verification model of bowling-time (\<^verbatim>\<open>src/src/App.tsx\<close>).\<close>

  \<^bold>\<open>The program.\<close> One React component \<^verbatim>\<open>App\<close> keeps a \<^verbatim>\<open>Game\<close> in an immer
  reducer (\<^verbatim>\<open>useImmerReducer(gameReducer, gameInitialState)\<close>). Two buttons call the
  handlers \<^verbatim>\<open>handleAddPlayer\<close> and \<^verbatim>\<open>handleRoll\<close>; each reads the state of the
  current render and dispatches actions to \<^verbatim>\<open>gameReducer\<close>, which mutates a draft.
  \<^verbatim>\<open>handleRoll\<close> draws a random pin count with \<^verbatim>\<open>roll(min, 10)\<close>, records it
  (\<^verbatim>\<open>recordStrike\<close>, \<^verbatim>\<open>recordSpare\<close>, \<^verbatim>\<open>addToStrike\<close>, \<^verbatim>\<open>addToSpare\<close>
  or \<^verbatim>\<open>addToScore\<close>) and moves the turn (\<^verbatim>\<open>nextRoll\<close>, \<^verbatim>\<open>nextPlayer\<close>,
  \<^verbatim>\<open>nextFrame\<close> or \<^verbatim>\<open>callWinner\<close>). The table rendering only reads the state.

  \<^bold>\<open>The theories.\<close>
  \<^item> \<open>Prelude\<close>: the JavaScript runtime the code relies on: the result type
    \<open>js_error + 'a\<close> for a thrown \<^verbatim>\<open>TypeError\<close>, array reads \<open>js_get\<close> that
    yield \<^verbatim>\<open>undefined\<close> (\<open>None\<close>), \<^verbatim>\<open>null\<close>-able numbers as \<open>int option\<close>
    (\<open>js_num\<close>, \<open>js_falsy\<close>), number printing \<open>js_num_string\<close>; lemmas in the
    collection \<open>js_simps\<close>.
  \<^item> \<open>GameState\<close> (App.tsx lines 7--57): records \<open>frame\<close>, \<open>player\<close>,
    \<open>game\<close>, the initial states, and \<open>update_frame\<close>, the write
    \<^verbatim>\<open>state.players[p].frames[f].x = ...\<close> every reducer case performs.
  \<^item> \<open>Reducer\<close> (lines 59--208): the action datatype \<open>gameAction\<close>, the reducer
    \<open>gameReducer\<close> with one equation per \<^verbatim>\<open>case\<close>, and \<open>dispatch\<close>, which
    applies a queue of actions in order.
  \<^item> \<open>Handlers\<close> (lines 213--322): \<open>getMinOfRange\<close>, \<open>calculateWinner\<close>,
    the outcomes \<open>roll_outcome\<close> of \<^verbatim>\<open>roll\<close>, \<open>getPreviousStrikes\<close>,
    \<open>getPreviousSpares\<close>, \<open>roll_min\<close>, \<open>handleAddPlayer\<close> and
    \<open>handleRoll\<close>. A handler is a function of the render's snapshot that dispatches
    the list of actions it queued on that snapshot; the random source is a parameter.
  \<^item> \<open>Machine\<close>: the application as a step relation \<open>app_step\<close> (one click that
    does not throw), the reachable states \<open>reachable\<close>, the invariant \<open>game_inv\<close>
    and its preservation, the one-roll lemma \<open>handleRoll_step\<close>, runs \<open>play\<close> of
    several rolls and the progress measure \<open>rolls_left\<close> of a one-player game.
  \<^item> \<open>RollEffects\<close>: the exact effect of one click on \<^verbatim>\<open>Roll\<close>, one lemma per
    branch of \<^verbatim>\<open>handleRoll\<close> (strike on the first ball, open first ball, open or
    10-pin second ball of the last player), and the gutter-ball lemmas.
  \<^item> \<open>Scorecard\<close>: the abstract view of a one-player game as a score card (cursor and
    frames), \<open>card_of\<close> as the abstraction function, the pure step \<open>card_step\<close>
    and its run \<open>card_play\<close>; \<open>handleRoll_card\<close> and \<open>play_card\<close> show that
    the handler refines them, and \<open>card_inv\<close> (running totals without bonus) holds on
    every reachable one-player state.
  \<^item> \<open>Scenarios\<close>: fixtures for the witnesses (\<open>game_one\<close>, \<open>game_two\<close>, the
    random sources \<open>pick k\<close> of \<open>Machine\<close>).
  \<^item> \<open>BowlingSpec\<close>: the scoring rules of the specification as a function
    \<open>game_score\<close> of the ball sequence (strike and spare bonuses), used to state
    where the program departs from them.
  \<^item> this theory: the properties of the program, each after a \<^verbatim>\<open>text\<close> block
    naming its claim.

  \<^bold>\<open>Modelling choices.\<close> Numbers are \<open>int\<close> (all values are small sums of pin
  counts). immer copies on write, so the state is a value: the frames that
  \<^verbatim>\<open>Array(10).fill\<close> shares, and the \<^verbatim>\<open>currentPlayer\<close> object assigned from
  \<^verbatim>\<open>players\<close>, behave as copies, and \<^verbatim>\<open>currentPlayer\<close> is a snapshot. The
  random pin count is any function satisfying \<open>valid_roll\<close>. A click that throws
  changes nothing, so \<open>app_step\<close> leaves it out. No fuel is needed: every
  definition is total; the one loop of the program (the game itself) is bounded by
  \<open>rolls_left\<close>, at most 18 rolls for one player.

  \<^bold>\<open>What the properties show.\<close> C1--C8: the reachable states are well formed
  (rule induction over \<open>reachable\<close>), a roll never throws once a player exists and
  throws before; no winner is ever set; with two or more players the frame cursor never
  moves and the last player never rolls; a one-player game reaches frame 10 within 18
  rolls and stops there; the bonus look-ups never fire. C9--C13 and C18: the exact
  frame contents of open frames (first ball counted twice), strikes (written into the
  next frame), 10-pin second balls (pins dropped, 10 written into the next frame), the
  range of the second ball, running totals that never include a bonus, and gutter games
  (which agree with \<open>game_score\<close>). C14--C16: \<^verbatim>\<open>calculateWinner\<close> returns the
  last player with a positive score, hence -1 in every reachable state, and players can
  join at any time. C17: one click refines the pure score-card step \<open>card_step\<close>.

  \<^bold>\<open>Not modelled.\<close> The JSX rendering (lines 324--355) and \<^verbatim>\<open>frameNumbers\<close>
  (line 6) only display the state; \<^verbatim>\<open>console.log\<close> calls have no effect on it;
  React's scheduling is reduced to the in-order application of a handler's queue.
\<close>

text \<open>
  C1. Safety: in every reachable state with at least one player, a click on Roll never
  throws, whatever the random pin count.
\<close>

theorem roll_never_throws:
  assumes "reachable g" and "players g \<noteq> []"
  shows "\<exists>g'. handleRoll roll g = Inr g'"
  using roll_exists [OF reachable_inv [OF assms(1)] assms(2)] .

theorem roll_never_throws_witness:
  "players game_one \<noteq> [] \<and> (\<exists>g'. handleRoll (pick 7) game_one = Inr g')"
  using roll_never_throws [OF reachable_game_one, of "pick 7"] by simp

text \<open>
  C2. Invariant: in every reachable state the players are numbered 1, 2, ... in the
  order they were added, each has exactly ten frames, every frame is in its first or
  second roll and carries neither the strike nor the spare flag, and the frame cursor
  lies in 1..10.
\<close>

theorem reachable_wellformed:
  assumes "reachable g"
  shows "map playerNumber (players g) = map (\<lambda>i. Some (int i)) [1..<Suc (length (players g))] \<and>
         (\<forall>p \<in> set (players g). length (frames p) = 10 \<and>
            (\<forall>fr \<in> set (frames p). (rollNumber fr = 1 \<or> rollNumber fr = 2) \<and>
                                   \<not> strike fr \<and> \<not> spare fr)) \<and>
         1 \<le> currentFrameNumber g \<and> currentFrameNumber g \<le> 10"
proof -
  note inv = reachable_inv [OF assms]
  then have "map playerNumber (players g) = map (\<lambda>i. Some (int i)) [1..<Suc (length (players g))]"
    by (intro nth_equalityI)
      (auto simp: game_inv_def numbered_def nth_upt add.commute simp del: upt_Suc)
  moreover from inv have "\<forall>p \<in> set (players g). player_ok p"
    by (simp add: game_inv_def list_all_iff)
  ultimately show ?thesis
    using inv by (auto simp: game_inv_def player_ok_def frame_ok_def list_all_iff)
qed

theorem reachable_wellformed_witness:
  "map playerNumber (players game_two) = [Some 1, Some 2] \<and> currentFrameNumber game_two = 1"
  using reachable_wellformed [OF reachable_game_two]
  by (simp add: game_two_def push_player_def game_one_def gameInitialState_def)

text \<open>
  C3. Liveness fails: no reachable state has a winner. \<^verbatim>\<open>callWinner\<close> is queued only
  when \<^verbatim>\<open>currentFrameNumber === 10\<close>, but \<^verbatim>\<open>handleRoll\<close> returns early as soon
  as the cursor passes 9, so the game never declares a winner.
\<close>

theorem winner_never_declared: "reachable g \<Longrightarrow> winner g = ''''"
  by (simp add: reachable_inv [THEN game_inv_def [THEN iffD1]])

theorem winner_never_declared_witness: "winner game_two = ''''"
  using winner_never_declared [OF reachable_game_two] .

text \<open>
  C4. Liveness fails with two or more players: from a reachable state with at least two
  players, no sequence of clicks ever moves the frame cursor.
\<close>

theorem multi_player_frame_frozen:
  assumes "reachable g" and "2 \<le> length (players g)" and "app_step\<^sup>*\<^sup>* g g'"
  shows "currentFrameNumber g' = currentFrameNumber g"
  using multi_steps_frame [OF assms(3) reachable_inv [OF assms(1)] assms(2)] by simp

theorem multi_player_frame_frozen_witness:
  "\<exists>g'. handleRoll (pick 3) game_two = Inr g' \<and> app_step\<^sup>*\<^sup>* game_two g' \<and>
        currentFrameNumber g' = 1"
proof -
  have two: "2 \<le> length (players game_two)"
    by simp
  have c: "currentFrameNumber game_two = 1"
    by (simp add: game_two_def push_player_def game_one_def gameInitialState_def)
  from roll_exists [OF reachable_inv [OF reachable_game_two]] obtain g' where
    g': "handleRoll (pick 3) game_two = Inr g'"
    by fastforce
  then have steps: "app_step\<^sup>*\<^sup>* game_two g'"
    by (blast intro: app_step.roll valid_pick)
  from multi_player_frame_frozen [OF reachable_game_two two steps] c have "currentFrameNumber g' = 1"
    by simp
  with g' steps show ?thesis
    by blast
qed

text \<open>
  C5. Turn order: in a reachable state with at least two players, the current player is
  never the last one, and the last player's frames are still the initial ones: the last
  player never rolls (\<^verbatim>\<open>nextPlayer\<close> compares the 1-based player number with
  \<^verbatim>\<open>players.length - 1\<close> and wraps to the first player one player too early).
\<close>

theorem last_player_never_plays:
  assumes "reachable g" and "2 \<le> length (players g)"
  shows "frames (last (players g)) = framesInitialState \<and>
         (\<exists>cp k. currentPlayer g = Some cp \<and> playerNumber cp = Some k \<and> k < int (length (players g)))"
proof -
  from reachable_last_untouched [OF assms(1)] have inv: "game_inv g" and lu: "last_untouched g"
    by auto
  from assms(2) have "players g \<noteq> []"
    by auto
  with inv obtain cp k where "currentPlayer g = Some cp" "playerNumber cp = Some k"
    "k < int (length (players g)) \<or> (k = 1 \<and> length (players g) = 1)"
    by (elim inv_current) auto
  with lu assms(2) show ?thesis
    by (auto simp: last_untouched_def)
qed

theorem last_player_never_plays_witness:
  "frames (last (players game_two)) = framesInitialState \<and>
   (\<exists>cp. currentPlayer game_two = Some cp \<and> playerNumber cp = Some 1)"
proof -
  have "currentPlayer game_two = Some (playerInitialState\<lparr>playerNumber := Some 1\<rparr>)"
    by (simp add: game_two_def push_player_def game_one_def)
  with last_player_never_plays [OF reachable_game_two] show ?thesis
    by auto
qed

text \<open>
  C6. Termination of a one-player game: from any reachable one-player state, any 18
  clicks on Roll run without error and leave the frame cursor at 10, where every further
  click is ignored; the tenth frame is never rolled.
\<close>

theorem single_player_reaches_frame_ten:
  assumes "reachable g" and "length (players g) = 1" and "18 \<le> length rs"
  shows "\<exists>g'. play rs g = Inr g' \<and> currentFrameNumber g' = 10 \<and> (\<forall>roll. handleRoll roll g' = Inr g')"
proof -
  note inv = reachable_inv [OF assms(1)]
  from rolls_left_le [OF inv] assms(3) have "rolls_left g \<le> length rs"
    by simp
  from single_player_play [OF inv assms(2) this] show ?thesis
    by auto
qed

theorem single_player_reaches_frame_ten_witness:
  "\<exists>g'. play (replicate 18 (pick 4)) game_one = Inr g' \<and> currentFrameNumber g' = 10"
proof -
  have one: "length (players game_one) = 1"
    by simp
  have len: "18 \<le> length (replicate 18 (pick 4))"
    by simp
  from single_player_reaches_frame_ten [OF reachable_game_one one len] show ?thesis
    by blast
qed

text \<open>
  C7. Error path: the only reachable state without players is the initial one, and a
  click on Roll there throws a \<^verbatim>\<open>TypeError\<close> (it reads
  \<^verbatim>\<open>game.players[-1].frames\<close>).
\<close>

theorem roll_without_players_throws:
  assumes "reachable g" and "players g = []"
  shows "g = gameInitialState \<and> handleRoll roll g = Inl TypeError"
  using reachable_empty [OF assms] by (simp add: handleRoll_empty gameInitialState_def)

theorem roll_without_players_throws_witness:
  "gameInitialState = gameInitialState \<and> handleRoll (pick 5) gameInitialState = Inl TypeError"
  using roll_without_players_throws [OF reachable.init] by (simp add: gameInitialState_def)

text \<open>
  C8. The bonus look-ups never fire: in every reachable state with a player,
  \<^verbatim>\<open>getPreviousStrikes\<close> and \<^verbatim>\<open>getPreviousSpares\<close> return -1, so
  \<^verbatim>\<open>handleRoll\<close> never queues \<^verbatim>\<open>addToStrike\<close> or \<^verbatim>\<open>addToSpare\<close> and no frame
  ever receives a strike or spare bonus.
\<close>

theorem bonus_lookups_never_fire:
  assumes "reachable g" and "players g \<noteq> []"
  shows "getPreviousStrikes g = Inr (-1) \<and> getPreviousSpares g = Inr (-1)"
proof -
  note inv = reachable_inv [OF assms(1)]
  from inv assms(2) obtain cp k where "currentPlayer g = Some cp" "player_ok cp"
    by (elim inv_current) auto
  with inv show ?thesis
    by (simp add: getPreviousStrikes_inv getPreviousSpares_inv)
qed

theorem bonus_lookups_never_fire_witness:
  "getPreviousStrikes game_two = Inr (-1) \<and> getPreviousSpares game_two = Inr (-1)"
  using bonus_lookups_never_fire [OF reachable_game_two] by simp

text \<open>
  C9. Functional: in a one-player game, an open frame (neither ball knocks down 10)
  whose balls knock down a and b pins ends with firstRoll a, secondRoll a + b, and a
  running total of the previous total plus 2a + b: the first ball is counted twice.
\<close>

theorem open_frame_counts_first_ball_twice:
  assumes "reachable g" and "length (players g) = 1" and "currentFrameNumber g \<le> 9"
    and "frame_of g 0 (currentFrameNumber g - 1) = Some fr" and "rollNumber fr = 1"
    and "rollA (roll_min fr) 10 = a" and "a \<noteq> 10"
    and "rollB (if 0 < a then 10 - a else 0) 10 = b" and "b \<noteq> 10"
  shows "\<exists>g2 fr2. play [rollA, rollB] g = Inr g2 \<and> currentFrameNumber g2 = currentFrameNumber g + 1 \<and>
           frame_of g2 0 (currentFrameNumber g - 1) = Some fr2 \<and>
           firstRoll fr2 = a \<and> secondRoll fr2 = a + b \<and> total fr2 = prev_total g 1 + 2 * a + b"
  using open_frame_two_rolls [where rollA = rollA and rollB = rollB, OF reachable_inv [OF assms(1)] assms(2-9)] .

theorem open_frame_counts_first_ball_twice_witness:
  "\<exists>g2 fr2. play [pick 3, pick 5] game_one = Inr g2 \<and> currentFrameNumber g2 = 2 \<and>
     frame_of g2 0 0 = Some fr2 \<and> firstRoll fr2 = 3 \<and> secondRoll fr2 = 10 \<and> total fr2 = 13"
proof -
  have a: "pick 3 (roll_min frameInitialState) 10 = 3"
    by (simp add: pick_def roll_min_def frameInitialState_def)
  have b: "pick 5 (if 0 < (3::int) then 10 - 3 else 0) 10 = 7"
    by (simp add: pick_def)
  have fr: "frame_of game_one 0 (currentFrameNumber game_one - 1) = Some frameInitialState"
    by (simp add: game_one_facts)
  have prev: "prev_total game_one 1 = 0"
    by (simp add: prev_total_def game_one_facts)
  from open_frame_counts_first_ball_twice [where rollA = "pick 3" and rollB = "pick 5", OF reachable_game_one _ _ fr _ a _ b]
  show ?thesis
    by (simp add: game_one_facts prev frameInitialState_def)
qed

text \<open>
  C10. Functional: a strike (10 pins on the first ball of a frame) is written into the
  next frame, which gets firstRoll 10, total 10 and roll number 2, while the current
  frame only moves to its second roll and keeps firstRoll and total unchanged.
\<close>

theorem strike_recorded_in_next_frame:
  assumes "reachable g" and "currentPlayer g = Some cp" and "playerNumber cp = Some k"
    and "currentFrameNumber g \<le> 9"
    and "frame_of g (k - 1) (currentFrameNumber g - 1) = Some fr" and "rollNumber fr = 1"
    and "frame_of g (k - 1) (currentFrameNumber g) = Some nx" and "roll (roll_min fr) 10 = 10"
  shows "\<exists>g'. handleRoll roll g = Inr g' \<and>
           frame_of g' (k - 1) (currentFrameNumber g - 1) = Some (fr\<lparr>rollNumber := 2\<rparr>) \<and>
           frame_of g' (k - 1) (currentFrameNumber g) =
             Some (nx\<lparr>firstRoll := 10, total := 10, rollNumber := 2\<rparr>)"
proof -
  note inv = reachable_inv [OF assms(1)]
  from assms(5) have "players g \<noteq> []"
    by (auto simp: frame_of_Some_iff)
  with inv assms(2) have pok: "player_ok cp"
    by (elim inv_current) auto
  from inv_frame_ok [OF inv assms(5)] have ok: "frame_ok fr" .
  let ?nx' = "nx\<lparr>firstRoll := 10, total := 10, rollNumber := 2\<rparr>"
  let ?g1 = "set_frame g (k - 1) (currentFrameNumber g) ?nx'"
  have f1: "frame_of ?g1 (k - 1) (currentFrameNumber g - 1) = Some fr"
    using assms(5) by (simp add: frame_of_set_frame [OF assms(7)])
  from roll_strike_first [where roll = roll, OF inv assms(2,3) pok assms(4,5) ok assms(6,7,8)]
    frame_of_set_frame [OF f1] frame_of_set_frame [OF assms(7)]
  show ?thesis
    by simp
qed

theorem strike_recorded_in_next_frame_witness:
  "\<exists>g'. handleRoll (pick 10) game_one = Inr g' \<and>
     frame_of g' 0 0 = Some (frameInitialState\<lparr>rollNumber := 2\<rparr>) \<and>
     frame_of g' 0 1 = Some (frameInitialState\<lparr>firstRoll := 10, total := 10, rollNumber := 2\<rparr>)"
proof -
  have x: "pick 10 (roll_min frameInitialState) 10 = 10"
    by (simp add: pick_def roll_min_def frameInitialState_def)
  have cp: "playerNumber (playerInitialState\<lparr>playerNumber := Some 1\<rparr>) = Some 1"
    by simp
  have fr: "frame_of game_one (1 - 1) (currentFrameNumber game_one - 1) = Some frameInitialState"
    and nx: "frame_of game_one (1 - 1) (currentFrameNumber game_one) = Some frameInitialState"
    by (simp_all add: game_one_facts)
  from strike_recorded_in_next_frame [where roll = "pick 10", OF reachable_game_one game_one_facts(4) cp _ fr _ nx x]
  show ?thesis
    by (simp add: game_one_facts frameInitialState_def)
qed

text \<open>
  C11. Bounds: with a random source that respects \<^verbatim>\<open>roll\<close>'s range, an open frame of
  a one-player game whose first ball knocks down 1 to 9 pins records between 10 and 18
  pins in secondRoll (the frame's pin count): the second ball is drawn from
  [10 - first, 10], so an open frame of fewer than 10 pins cannot occur and a frame can
  record more than the 10 pins that stand.
\<close>

theorem open_frame_pins_at_least_ten:
  assumes "reachable g" and "length (players g) = 1" and "currentFrameNumber g \<le> 9"
    and "frame_of g 0 (currentFrameNumber g - 1) = Some fr" and "rollNumber fr = 1"
    and "rollA (roll_min fr) 10 = a" and "0 < a" and "a < 10"
    and "valid_roll rollB" and "rollB (10 - a) 10 \<noteq> 10"
  shows "\<exists>g2 fr2. play [rollA, rollB] g = Inr g2 \<and> frame_of g2 0 (currentFrameNumber g - 1) = Some fr2 \<and>
           10 \<le> secondRoll fr2 \<and> secondRoll fr2 \<le> 18"
proof -
  let ?b = "rollB (10 - a) 10"
  from assms(7,8,9) have "10 - a \<le> ?b" and "?b \<le> 10"
    by (auto simp: valid_roll_def roll_outcome_def dest: spec [of _ "10 - a"])
  with assms(10) have b: "10 - a \<le> ?b" "?b \<le> 9"
    by auto
  from assms(7,8) have "a \<noteq> 10" and "rollB (if 0 < a then 10 - a else 0) 10 = ?b"
    by simp_all
  from open_frame_two_rolls [where rollA = rollA and rollB = rollB, OF reachable_inv [OF assms(1)] assms(2-6) this assms(10)]
  obtain g2 fr2 where "play [rollA, rollB] g = Inr g2" "frame_of g2 0 (currentFrameNumber g - 1) = Some fr2"
    "secondRoll fr2 = a + ?b"
    by blast
  with b assms(8) show ?thesis
    by auto
qed

theorem open_frame_pins_at_least_ten_witness:
  "\<exists>g2 fr2. play [pick 9, pick 9] game_one = Inr g2 \<and> frame_of g2 0 0 = Some fr2 \<and>
     10 \<le> secondRoll fr2 \<and> secondRoll fr2 \<le> 18"
proof -
  have a: "pick 9 (roll_min frameInitialState) 10 = 9"
    by (simp add: pick_def roll_min_def frameInitialState_def)
  have b: "pick 9 (10 - 9) 10 \<noteq> 10"
    by (simp add: pick_def)
  have fr: "frame_of game_one 0 (currentFrameNumber game_one - 1) = Some frameInitialState"
    by (simp add: game_one_facts)
  from open_frame_pins_at_least_ten [where rollA = "pick 9" and rollB = "pick 9", OF reachable_game_one _ _ fr _ a _ _ valid_pick b]
  show ?thesis
    by (simp add: game_one_facts frameInitialState_def)
qed

text \<open>
  C12. No bonus is ever scored: in every reachable one-player state, each finished frame
  (left of the frame cursor) shows the previous frame's total plus its own recorded
  \<^verbatim>\<open>firstRoll\<close> and \<^verbatim>\<open>secondRoll\<close> and nothing else, whereas the rules add the
  next two balls to a strike and the next ball to a spare.
\<close>

theorem frame_totals_no_bonus:
  assumes "reachable g" and "length (players g) = 1" and "j < nat (currentFrameNumber g - 1)"
  shows "total (frames (hd (players g)) ! j) =
           (if j = 0 then 0 else total (frames (hd (players g)) ! (j - 1))) +
           firstRoll (frames (hd (players g)) ! j) + secondRoll (frames (hd (players g)) ! j)"
  using reachable_card_inv [OF assms(1,2)] assms(3) by (simp add: card_inv_def card_of_def)

theorem frame_totals_no_bonus_witness:
  "\<exists>g. play [pick 10, pick 4, pick 3] game_one = Inr g \<and> currentFrameNumber g = 3 \<and>
       total (frames (hd (players g)) ! 1) = 27 \<and>
       total (frames (hd (players g)) ! 0) + firstRoll (frames (hd (players g)) ! 1) +
         secondRoll (frames (hd (players g)) ! 1) = 27"
proof -
  from play_card [OF reachable_inv [OF reachable_game_one], of "[pick 10, pick 4, pick 3]"]
  obtain g where g: "play [pick 10, pick 4, pick 3] game_one = Inr g" "length (players g) = 1"
    "card_of g = card_play [pick 10, pick 4, pick 3] (card_of game_one)"
    by auto
  have run: "card_play [pick 10, pick 4, pick 3] (1, framesInitialState) =
      (3, [frameInitialState\<lparr>rollNumber := 2, secondRoll := 4, total := 4\<rparr>,
           frameInitialState\<lparr>firstRoll := 10, total := 27, rollNumber := 2, secondRoll := 13\<rparr>]
          @ replicate 8 frameInitialState)"
    by code_simp
  from g(3) have "card_of g = card_play [pick 10, pick 4, pick 3] (1, framesInitialState)"
    by (simp only: card_of_game_one)
  then have "currentFrameNumber g = 3 \<and> frames (hd (players g)) =
      [frameInitialState\<lparr>rollNumber := 2, secondRoll := 4, total := 4\<rparr>,
       frameInitialState\<lparr>firstRoll := 10, total := 27, rollNumber := 2, secondRoll := 13\<rparr>]
      @ replicate 8 frameInitialState"
    by (simp only: run card_of_def prod.inject)
  then have cd: "currentFrameNumber g = 3" "total (frames (hd (players g)) ! 1) = 27"
    "total (frames (hd (players g)) ! 0) = 4" "firstRoll (frames (hd (players g)) ! 1) = 10"
    "secondRoll (frames (hd (players g)) ! 1) = 13"
    by simp_all
  from play_reachable [OF reachable_game_one _ g(1)] have "reachable g"
    by simp
  from frame_totals_no_bonus [OF this g(2), of 1] cd g(1) show ?thesis
    by simp
qed

text \<open>
  C13. Agreement with the scoring rules on gutter games: in a one-player game, any
  number of gutter balls (0 pins each) leaves every frame total at 0, which is the
  specification's score of an all-gutter sequence.
\<close>

theorem gutter_game_totals:
  "\<exists>g'. play (replicate n (pick 0)) game_one = Inr g' \<and>
        map total (frames (hd (players g'))) = replicate 10 0 \<and> game_score (replicate n 0) = 0"
proof -
  note inv1 = reachable_inv [OF reachable_game_one]
  have "zero_frames (hd (players game_one))"
    by (simp add: zero_frames_initial)
  from gutter_play [OF inv1 _ this, of n] obtain g' where
    g': "play (replicate n (pick 0)) game_one = Inr g'" "game_inv g'" "length (players g') = 1"
      "zero_frames (hd (players g'))"
    by auto
  from g'(3) obtain p where p: "players g' = [p]"
    by (cases "players g'") auto
  with g'(2) have "length (frames p) = 10"
    by (simp add: game_inv_def player_ok_def)
  with g'(4) p have "map total (frames (hd (players g'))) = replicate 10 0"
    by (auto simp: zero_frames_def list_all_length intro: nth_equalityI)
  with g' show ?thesis
    by (simp add: game_score_def spec_score_zeros)
qed

text \<open>
  C14. Functional behaviour of calculateWinner: it returns the number of the last player
  whose score is positive, or -1 when no score is positive, because
  \<^verbatim>\<open>winnerScore\<close> is never updated; it is not the player with the highest score.
\<close>

theorem calculateWinner_last_positive:
  "calculateWinner g =
     (case filter (\<lambda>p. 0 < score p) (players g) of [] \<Rightarrow> Some (-1) | qs \<Rightarrow> playerNumber (last qs))"
  by (simp add: calculateWinner_def calculateWinner_foldl)

text \<open>
  C15. In every reachable state \<^verbatim>\<open>calculateWinner\<close> returns -1: no reducer case
  writes \<^verbatim>\<open>Player.score\<close>, so every score stays 0.
\<close>

theorem calculateWinner_reachable:
  assumes "reachable g"
  shows "calculateWinner g = Some (-1)"
proof -
  from reachable_inv [OF assms] have "\<forall>p \<in> set (players g). score p = 0"
    by (auto simp: game_inv_def player_ok_def list_all_iff)
  then have "filter (\<lambda>p. 0 < score p) (players g) = []"
    by (simp add: filter_empty_conv)
  then show ?thesis
    by (simp add: calculateWinner_def calculateWinner_foldl)
qed

theorem calculateWinner_reachable_witness: "calculateWinner game_two = Some (-1)"
  using calculateWinner_reachable [OF reachable_game_two] .

text \<open>
  C16. Functional behaviour of handleAddPlayer: in every state, also in the middle of a
  game, a click on Add player appends a fresh player numbered one past the current
  count and leaves the frame cursor unchanged; the first player added becomes the
  current player, and a later one leaves the current player as it is. Nothing stops
  players from joining after the first frame.
\<close>

theorem add_player_always_accepted:
  "\<exists>g'. handleAddPlayer g = Inr g' \<and>
        players g' = players g @ [playerInitialState\<lparr>playerNumber := Some (int (length (players g)) + 1)\<rparr>] \<and>
        currentFrameNumber g' = currentFrameNumber g \<and>
        currentPlayer g' =
          (if players g = [] then Some (playerInitialState\<lparr>playerNumber := Some 1\<rparr>) else currentPlayer g)"
  by (cases "players g = []") (auto simp: handleAddPlayer_def push_player_def js_get_def)

text \<open>
  C17. Refinement: on every reachable one-player state a click on Roll never throws and
  its effect on the score card (the frame cursor and the player's frames) is exactly
  \<open>card_step\<close>, a pure function of the card and the pin count drawn: the snapshot,
  the action queue and the run-time errors of the handler add nothing.
\<close>

theorem handleRoll_refines_card_step:
  assumes "reachable g" and "length (players g) = 1"
  shows "\<exists>g'. handleRoll roll g = Inr g' \<and> card_of g' = card_step (card_of g) (card_pins roll (card_of g))"
  using handleRoll_card [OF reachable_inv [OF assms(1)] assms(2)] by blast

theorem handleRoll_refines_card_step_witness:
  "\<exists>g'. handleRoll (pick 10) game_one = Inr g' \<and>
     card_of g' = (1, [frameInitialState\<lparr>rollNumber := 2\<rparr>,
                       frameInitialState\<lparr>firstRoll := 10, total := 10, rollNumber := 2\<rparr>]
                      @ replicate 8 frameInitialState)"
proof -
  have "card_step (1, framesInitialState) (card_pins (pick 10) (1, framesInitialState)) =
      (1, [frameInitialState\<lparr>rollNumber := 2\<rparr>,
           frameInitialState\<lparr>firstRoll := 10, total := 10, rollNumber := 2\<rparr>] @ replicate 8 frameInitialState)"
    by code_simp
  with handleRoll_refines_card_step [OF reachable_game_one, of "pick 10"] show ?thesis
    by (simp only: card_of_game_one game_one_players length_Cons list.size(3))
qed

text \<open>
  C18. Functional: when the last player's second ball knocks down 10 pins, the pins of
  that ball are never recorded (\<^verbatim>\<open>secondRoll\<close> keeps its value), the frame closes
  with the previous total plus its recorded balls, the spare's 10 is written into the
  next frame, which is also put in its second roll, and the cursor moves on.
\<close>

theorem spare_recorded_in_next_frame:
  assumes "reachable g" and "currentPlayer g = Some cp" and "playerNumber cp = Some k"
    and "k = int (length (players g))" and "currentFrameNumber g \<le> 9"
    and "frame_of g (k - 1) (currentFrameNumber g - 1) = Some fr" and "rollNumber fr = 2"
    and "frame_of g (k - 1) (currentFrameNumber g) = Some nx" and "roll (roll_min fr) 10 = 10"
  shows "\<exists>g'. handleRoll roll g = Inr g' \<and> currentFrameNumber g' = currentFrameNumber g + 1 \<and>
           frame_of g' (k - 1) (currentFrameNumber g - 1) =
             Some (fr\<lparr>total := prev_total g k + firstRoll fr + secondRoll fr\<rparr>) \<and>
           frame_of g' (k - 1) (currentFrameNumber g) = Some (nx\<lparr>total := 10, rollNumber := 2\<rparr>)"
proof -
  note inv = reachable_inv [OF assms(1)]
  from assms(6) have "players g \<noteq> []"
    by (auto simp: frame_of_Some_iff)
  with inv assms(2,3) obtain pok: "player_ok cp" and k1: "1 \<le> k"
    by (elim inv_current) auto
  from inv_frame_ok [OF inv assms(6)] have ok: "frame_ok fr" .
  let ?nx' = "nx\<lparr>total := 10, rollNumber := 2\<rparr>"
  let ?g1 = "set_frame g (k - 1) (currentFrameNumber g) ?nx'"
  have f1: "frame_of ?g1 (k - 1) (currentFrameNumber g - 1) = Some fr"
    using assms(6) by (simp add: frame_of_set_frame [OF assms(8)])
  from roll_second_spare_last [where roll = roll, OF inv assms(2,3) pok k1 assms(4,5,6) ok assms(7,8,9)]
    frame_of_set_frame [OF f1] frame_of_set_frame [OF assms(8)]
  show ?thesis
    by simp
qed

theorem spare_recorded_in_next_frame_witness:
  "handleRoll (pick 3) game_one =
     Inr (set_frame game_one 0 0 (frameInitialState\<lparr>firstRoll := 3, total := 3, rollNumber := 2\<rparr>)) \<and>
   (\<exists>g'. handleRoll (pick 10)
            (set_frame game_one 0 0 (frameInitialState\<lparr>firstRoll := 3, total := 3, rollNumber := 2\<rparr>)) = Inr g' \<and>
         currentFrameNumber g' = 2 \<and>
         frame_of g' 0 0 = Some (frameInitialState\<lparr>firstRoll := 3, total := 3, rollNumber := 2\<rparr>) \<and>
         frame_of g' 0 1 = Some (frameInitialState\<lparr>total := 10, rollNumber := 2\<rparr>))"
proof -
  let ?fr1 = "frameInitialState\<lparr>firstRoll := 3, total := 3, rollNumber := 2\<rparr>"
  let ?g1 = "set_frame game_one 0 0 ?fr1"
  have cp: "currentPlayer game_one = Some (playerInitialState\<lparr>playerNumber := Some 1\<rparr>)"
    "playerNumber (playerInitialState\<lparr>playerNumber := Some 1\<rparr>) = Some 1"
    "player_ok (playerInitialState\<lparr>playerNumber := Some 1\<rparr>)"
    by (simp_all add: game_one_facts)
  have fr: "frame_of game_one (1 - 1) (currentFrameNumber game_one - 1) = Some frameInitialState"
    "frame_ok frameInitialState" "rollNumber frameInitialState = 1"
    by (simp_all add: game_one_facts frame_ok_def frameInitialState_def)
  have a: "pick 3 (roll_min frameInitialState) 10 = 3"
    by (simp add: pick_def roll_min_def frameInitialState_def)
  from roll_first_open [where roll = "pick 3", OF reachable_inv [OF reachable_game_one] cp _ _ fr a]
  have h1: "handleRoll (pick 3) game_one = Inr ?g1"
    by (simp add: game_one_facts frameInitialState_def)
  have r1: "reachable ?g1"
    by (rule reachable.step [OF reachable_game_one app_step.roll [OF valid_pick h1]])
  have f0: "frame_of game_one 0 0 = Some frameInitialState"
    by (simp add: game_one_facts)
  have cp1: "currentPlayer ?g1 = Some (playerInitialState\<lparr>playerNumber := Some 1\<rparr>)"
    by (simp add: game_one_facts)
  have k1: "(1::int) = int (length (players ?g1))" and c1: "currentFrameNumber ?g1 \<le> 9"
    by (simp_all add: game_one_facts)
  have fr1: "frame_of ?g1 (1 - 1) (currentFrameNumber ?g1 - 1) = Some ?fr1"
    and nx1: "frame_of ?g1 (1 - 1) (currentFrameNumber ?g1) = Some frameInitialState"
    by (simp_all add: frame_of_set_frame [OF f0] game_one_facts)
  have rn: "rollNumber ?fr1 = 2" and x: "pick 10 (roll_min ?fr1) 10 = 10"
    by (simp_all add: pick_def roll_min_def getMinOfRange_def)
  have prev: "prev_total ?g1 1 = 0"
    by (simp add: prev_total_def game_one_facts)
  from spare_recorded_in_next_frame [where roll = "pick 10", OF r1 cp1 cp(2) k1 c1 fr1 rn nx1 x] h1 prev
  show ?thesis
    by (simp add: game_one_facts frameInitialState_def)
qed

end
